theory Spec2Isabelle
  imports Complex_Main
begin

section \<open>Eigen containers and fatal checks\<close>

text \<open>
  The header \<^verbatim>\<open>polynomial.h\<close> stores coefficients in \<^verbatim>\<open>Eigen::VectorXd\<close> and the
  derivative multipliers in a static \<^verbatim>\<open>Eigen::MatrixXd\<close>. A \<^verbatim>\<open>double\<close> is embedded
  as a \<^typ>\<open>real\<close>, a vector as a list, a matrix as the list of its rows. The \<^verbatim>\<open>int\<close>
  arguments of the header stay \<^typ>\<open>int\<close>, so that negative arguments are inputs of the
  model as they are of the code.

  Arithmetic on \<^typ>\<open>real\<close> is exact: the rounding of \<^verbatim>\<open>double\<close> is not part of the model.

  Two kinds of fatal stop occur: a glog \<^verbatim>\<open>CHECK_*\<close> that does not hold, and an index
  or block that Eigen's own range assertion (\<^verbatim>\<open>eigen_assert\<close>) rejects. Where a build
  compiles these assertions out, the access behind them is out of the bounds of the
  container: the model stops there in either case.
\<close>

datatype error = CheckFailed | EigenAssert

type_synonym VectorXd = "real list"
type_synonym MatrixXd = "real list list"

definition bind_e :: "error + 'a \<Rightarrow> ('a \<Rightarrow> error + 'b) \<Rightarrow> error + 'b" where
  "bind_e x f = (case x of Inl e \<Rightarrow> Inl e | Inr v \<Rightarrow> f v)"

definition rows :: "MatrixXd \<Rightarrow> int" where
  "rows m = int (length m)"

definition cols :: "MatrixXd \<Rightarrow> int" where
  "cols m = (case m of [] \<Rightarrow> 0 | r # _ \<Rightarrow> int (length r))"

text \<open>\<^verbatim>\<open>v[i]\<close>: Eigen asserts \<open>0 \<le> i < v.size()\<close>.\<close>

definition coeff :: "VectorXd \<Rightarrow> int \<Rightarrow> error + real" where
  "coeff v i = (if 0 \<le> i \<and> i < int (length v) then Inr (v ! nat i) else Inl EigenAssert)"

text \<open>\<^verbatim>\<open>m(i, j)\<close>: Eigen asserts that both indices are in range.\<close>

definition coeff2 :: "MatrixXd \<Rightarrow> int \<Rightarrow> int \<Rightarrow> error + real" where
  "coeff2 m i j =
     (if 0 \<le> i \<and> i < rows m \<and> 0 \<le> j \<and> j < cols m then Inr (m ! nat i ! nat j)
      else Inl EigenAssert)"

text \<open>
  \<^verbatim>\<open>m.block(startRow, startCol, 1, blockCols)\<close>, the only shape of block the header
  takes, read as a vector. Eigen asserts
  \<^verbatim>\<open>startRow >= 0 && blockRows >= 0 && startRow <= rows - blockRows && startCol >= 0
  && blockCols >= 0 && startCol <= cols - blockCols\<close>, here with \<^verbatim>\<open>blockRows\<close> = 1.
\<close>

definition block_1 :: "MatrixXd \<Rightarrow> int \<Rightarrow> int \<Rightarrow> int \<Rightarrow> error + VectorXd" where
  "block_1 m startRow startCol blockCols =
     (if 0 \<le> startRow \<and> startRow \<le> rows m - 1 \<and> 0 \<le> startCol \<and> 0 \<le> blockCols
         \<and> startCol \<le> cols m - blockCols
      then Inr (take (nat blockCols) (drop (nat startCol) (m ! nat startRow)))
      else Inl EigenAssert)"

text \<open>\<^verbatim>\<open>VectorXd v(n); v.setZero()\<close>: a negative size is rejected.\<close>

definition zero_vector :: "int \<Rightarrow> error + VectorXd" where
  "zero_vector n = (if 0 \<le> n then Inr (replicate (nat n) 0) else Inl EigenAssert)"

text \<open>\<^verbatim>\<open>v.tail(n)\<close>: the last \<open>n\<close> entries; Eigen asserts \<open>0 \<le> n \<le> v.size()\<close>.\<close>

definition tail :: "VectorXd \<Rightarrow> int \<Rightarrow> error + VectorXd" where
  "tail v n =
     (if 0 \<le> n \<and> n \<le> int (length v) then Inr (drop (length v - nat n) v)
      else Inl EigenAssert)"

text \<open>\<^verbatim>\<open>a.cwiseProduct(b)\<close>: entrywise product; the sizes have to agree.\<close>

definition cwiseProduct :: "VectorXd \<Rightarrow> VectorXd \<Rightarrow> error + VectorXd" where
  "cwiseProduct a b =
     (if length a = length b then Inr (map (\<lambda>(x, y). x * y) (zip a b)) else Inl EigenAssert)"

text \<open>\<^verbatim>\<open>v.head(n) = w\<close>: overwrite the first \<open>n\<close> entries; \<open>0 \<le> n \<le> v.size()\<close> and
  \<open>w.size() = n\<close> are asserted.\<close>

definition assign_head :: "VectorXd \<Rightarrow> int \<Rightarrow> VectorXd \<Rightarrow> error + VectorXd" where
  "assign_head v n w =
     (if 0 \<le> n \<and> n \<le> int (length v) \<and> int (length w) = n then Inr (w @ drop (nat n) v)
      else Inl EigenAssert)"

section \<open>The basis table\<close>

definition kMaxN :: int where
  "kMaxN = 12"

text \<open>
  Modelled from the spec: the body of \<^verbatim>\<open>computeBaseCoefficients\<close> and the initialiser of
  the static \<^verbatim>\<open>base_coefficients_\<close> are not in the header (only their declarations
  are). The spec gives the table as the square table of side \<open>N\<close> whose entry in row \<open>d\<close>,
  column \<open>j\<close> is the multiplier produced when differentiating \<open>t^j\<close> exactly \<open>d\<close> times,
  the falling factorial \<open>j\<cdot>(j-1)\<cdot>\<dots>\<cdot>(j-d+1)\<close> for \<open>j \<ge> d\<close> and \<open>0\<close> for \<open>j < d\<close>, built
  once for \<open>N = kMaxN\<close>.
\<close>

primrec falling_factorial :: "nat \<Rightarrow> nat \<Rightarrow> real" where
  "falling_factorial j 0 = 1"
| "falling_factorial j (Suc d) = falling_factorial j d * (real j - real d)"

definition base_entry :: "nat \<Rightarrow> nat \<Rightarrow> real" where
  "base_entry d j = (if d \<le> j then falling_factorial j d else 0)"

definition computeBaseCoefficients :: "int \<Rightarrow> MatrixXd" where
  "computeBaseCoefficients N =
     map (\<lambda>d. map (\<lambda>j. base_entry d j) [0..<nat N]) [0..<nat N]"

definition base_coefficients :: MatrixXd where
  "base_coefficients = computeBaseCoefficients kMaxN"

section \<open>The polynomial\<close>

text \<open>
  The private members \<^verbatim>\<open>N_\<close> and \<^verbatim>\<open>coefficients_\<close> are the fields \<open>m_N\<close> and
  \<open>m_coefficients\<close>. The static \<^verbatim>\<open>base_coefficients_\<close> is a public variable that is not
  \<^verbatim>\<open>const\<close>: every member that reads it takes the table it finds as its first argument
  \<open>tbl\<close>, and \<open>base_coefficients\<close> is the table that static initialisation builds.
\<close>

record Polynomial =
  m_N :: int
  m_coefficients :: VectorXd

text \<open>The class invariant the constructors establish: as many coefficients as \<open>N_\<close> says.\<close>

definition wf_Polynomial :: "Polynomial \<Rightarrow> bool" where
  "wf_Polynomial p \<longleftrightarrow> int (length (m_coefficients p)) = m_N p"

text \<open>\<^verbatim>\<open>Polynomial(int N) : N_(N), coefficients_(N) { coefficients_.setZero(); }\<close>\<close>

definition Polynomial_zero :: "int \<Rightarrow> error + Polynomial" where
  "Polynomial_zero N =
     bind_e (zero_vector N) (\<lambda>v. Inr \<lparr>m_N = N, m_coefficients = v\<rparr>)"

text \<open>\<^verbatim>\<open>Polynomial(int N, const VectorXd& coeffs)\<close> with its \<^verbatim>\<open>CHECK_EQ(N_, coeffs.size())\<close>.\<close>

definition Polynomial_coeffs :: "int \<Rightarrow> VectorXd \<Rightarrow> error + Polynomial" where
  "Polynomial_coeffs N coeffs =
     (if N = int (length coeffs) then Inr \<lparr>m_N = N, m_coefficients = coeffs\<rparr>
      else Inl CheckFailed)"

text \<open>
  \<^verbatim>\<open>operator==\<close> compares the coefficient vectors only: \<^verbatim>\<open>coefficients_ == rhs.coefficients_\<close>
  is Eigen's \<^verbatim>\<open>cwiseEqual(other).all()\<close>, whose binary expression asserts that both sides
  have the same size, as \<^verbatim>\<open>cwiseProduct\<close> does. \<^verbatim>\<open>operator!=\<close> negates \<^verbatim>\<open>operator==\<close>.
\<close>

definition cwiseEqual_all :: "VectorXd \<Rightarrow> VectorXd \<Rightarrow> error + bool" where
  "cwiseEqual_all a b =
     (if length a = length b then Inr (list_all (\<lambda>(x, y). x = y) (zip a b))
      else Inl EigenAssert)"

definition equals :: "Polynomial \<Rightarrow> Polynomial \<Rightarrow> error + bool" where
  "equals p rhs = cwiseEqual_all (m_coefficients p) (m_coefficients rhs)"

definition not_equals :: "Polynomial \<Rightarrow> Polynomial \<Rightarrow> error + bool" where
  "not_equals p rhs = bind_e (equals p rhs) (\<lambda>b. Inr (\<not> b))"

text \<open>\<^verbatim>\<open>int N() const\<close>\<close>

definition getN :: "Polynomial \<Rightarrow> int" where
  "getN p = m_N p"

definition setCoefficients :: "Polynomial \<Rightarrow> VectorXd \<Rightarrow> error + Polynomial" where
  "setCoefficients p coeffs =
     (if m_N p = int (length coeffs) then Inr (p\<lparr>m_coefficients := coeffs\<rparr>)
      else Inl CheckFailed)"

definition getCoefficients :: "MatrixXd \<Rightarrow> Polynomial \<Rightarrow> int \<Rightarrow> error + VectorXd" where
  "getCoefficients tbl p derivative =
     (if \<not> derivative \<le> m_N p then Inl CheckFailed
      else if derivative = 0 then Inr (m_coefficients p)
      else
        bind_e (zero_vector (m_N p)) (\<lambda>result.
        bind_e (tail (m_coefficients p) (m_N p - derivative)) (\<lambda>tl.
        bind_e (block_1 tbl derivative derivative (m_N p - derivative)) (\<lambda>blk.
        bind_e (cwiseProduct tl blk) (\<lambda>prod.
        assign_head result (m_N p - derivative) prod)))))"

text \<open>
  The inner loop of the scalar \<^verbatim>\<open>evaluate\<close>:
  \<^verbatim>\<open>for (int j = tmp - 1; j >= derivative; --j) { result *= t; result += row[j] * coefficients_[j]; }\<close>
\<close>

function evaluate_loop ::
  "VectorXd \<Rightarrow> VectorXd \<Rightarrow> real \<Rightarrow> int \<Rightarrow> int \<Rightarrow> real \<Rightarrow> error + real" where
  "evaluate_loop row cs t derivative j result =
     (if j \<ge> derivative then
        (case coeff row j of Inl e \<Rightarrow> Inl e | Inr r \<Rightarrow>
          (case coeff cs j of Inl e \<Rightarrow> Inl e | Inr c \<Rightarrow>
             evaluate_loop row cs t derivative (j - 1) (result * t + r * c)))
      else Inr result)"
  by pat_completeness auto
termination
  by (relation "measure (\<lambda>(row, cs, t, derivative, j, result). nat (j - derivative + 1))") auto

declare evaluate_loop.simps [simp del]

definition evaluate :: "MatrixXd \<Rightarrow> Polynomial \<Rightarrow> real \<Rightarrow> int \<Rightarrow> error + real" where
  "evaluate tbl p t derivative =
     (if derivative \<ge> m_N p then Inr 0
      else
        let tmp = m_N p - 1 in
        bind_e (block_1 tbl derivative 0 (m_N p)) (\<lambda>row.
        bind_e (coeff row tmp) (\<lambda>r.
        bind_e (coeff (m_coefficients p) tmp) (\<lambda>c.
        evaluate_loop row (m_coefficients p) t derivative (tmp - 1) (r * c)))))"

text \<open>\<^verbatim>\<open>v[i] = x\<close>, with Eigen's range assertion on the index.\<close>

definition assign_coeff :: "VectorXd \<Rightarrow> int \<Rightarrow> real \<Rightarrow> error + VectorXd" where
  "assign_coeff v i x =
     (if 0 \<le> i \<and> i < int (length v) then Inr (v[nat i := x]) else Inl EigenAssert)"

text \<open>
  The vector form \<^verbatim>\<open>evaluate(double t, Eigen::VectorXd* result)\<close>. Its inner loop
  \<^verbatim>\<open>for (int j = tmp - 1; j >= i; --j) { acc *= t; acc += row[j] * coefficients_[j]; }\<close>
  and its outer loop \<^verbatim>\<open>for (int i = 0; i < max_deg; i++)\<close> are functions of their own.
\<close>

function evaluate_vec_inner ::
  "VectorXd \<Rightarrow> VectorXd \<Rightarrow> real \<Rightarrow> int \<Rightarrow> int \<Rightarrow> real \<Rightarrow> error + real" where
  "evaluate_vec_inner row cs t i j acc =
     (if j \<ge> i then
        (case coeff row j of Inl e \<Rightarrow> Inl e | Inr r \<Rightarrow>
          (case coeff cs j of Inl e \<Rightarrow> Inl e | Inr c \<Rightarrow>
             evaluate_vec_inner row cs t i (j - 1) (acc * t + r * c)))
      else Inr acc)"
  by pat_completeness auto
termination
  by (relation "measure (\<lambda>(row, cs, t, i, j, acc). nat (j - i + 1))") auto

declare evaluate_vec_inner.simps [simp del]

function evaluate_vec_outer ::
  "MatrixXd \<Rightarrow> Polynomial \<Rightarrow> real \<Rightarrow> int \<Rightarrow> int \<Rightarrow> VectorXd \<Rightarrow> error + VectorXd" where
  "evaluate_vec_outer tbl p t max_deg i result =
     (if i < max_deg then
        (let tmp = m_N p - 1 in
         case block_1 tbl i 0 (m_N p) of Inl e \<Rightarrow> Inl e | Inr row \<Rightarrow>
          (case coeff row tmp of Inl e \<Rightarrow> Inl e | Inr r \<Rightarrow>
            (case coeff (m_coefficients p) tmp of Inl e \<Rightarrow> Inl e | Inr c \<Rightarrow>
              (case evaluate_vec_inner row (m_coefficients p) t i (tmp - 1) (r * c) of
                 Inl e \<Rightarrow> Inl e
               | Inr acc \<Rightarrow>
                  (case assign_coeff result i acc of Inl e \<Rightarrow> Inl e | Inr result' \<Rightarrow>
                     evaluate_vec_outer tbl p t max_deg (i + 1) result')))))
      else Inr result)"
  by pat_completeness auto
termination
  by (relation "measure (\<lambda>(tbl, p, t, max_deg, i, result). nat (max_deg - i))") auto

declare evaluate_vec_outer.simps [simp del]

definition evaluate_vec :: "MatrixXd \<Rightarrow> Polynomial \<Rightarrow> real \<Rightarrow> VectorXd \<Rightarrow> error + VectorXd" where
  "evaluate_vec tbl p t result =
     (if \<not> int (length result) \<le> m_N p then Inl CheckFailed
      else evaluate_vec_outer tbl p t (int (length result)) 0 result)"

text \<open>
  \<^verbatim>\<open>computeRoots\<close> hands the stored coefficients to \<^verbatim>\<open>findRootsJenkinsTraub\<close> of
  \<^verbatim>\<open>rpoly.h\<close>, which is not part of the header: the solver is a parameter.
\<close>

definition computeRoots :: "(VectorXd \<Rightarrow> complex list) \<Rightarrow> Polynomial \<Rightarrow> complex list" where
  "computeRoots findRootsJenkinsTraub p = findRootsJenkinsTraub (m_coefficients p)"

text \<open>\<^verbatim>\<open>std::numeric_limits<double>::epsilon()\<close>\<close>

definition epsilon :: real where
  "epsilon = 1 / 2 ^ 52"

text \<open>
  \<^verbatim>\<open>baseCoeffsWithTime(int N, int derivative, double t, Eigen::VectorXd* coeffs)\<close>; its loop
  \<^verbatim>\<open>for (int j = derivative + 1; j < N; j++) { (*coeffs)[j] = base_coefficients_(derivative, j) * t_power; t_power = t_power * t; }\<close>
\<close>

function baseCoeffs_loop ::
  "MatrixXd \<Rightarrow> int \<Rightarrow> int \<Rightarrow> real \<Rightarrow> int \<Rightarrow> real \<Rightarrow> VectorXd \<Rightarrow> error + VectorXd" where
  "baseCoeffs_loop tbl N derivative t j t_power coeffs =
     (if j < N then
        (case coeff2 tbl derivative j of Inl e \<Rightarrow> Inl e | Inr b \<Rightarrow>
          (case assign_coeff coeffs j (b * t_power) of Inl e \<Rightarrow> Inl e | Inr coeffs' \<Rightarrow>
             baseCoeffs_loop tbl N derivative t (j + 1) (t_power * t) coeffs'))
      else Inr coeffs)"
  by pat_completeness auto
termination
  by (relation "measure (\<lambda>(tbl, N, derivative, t, j, t_power, coeffs). nat (N - j))") auto

declare baseCoeffs_loop.simps [simp del]

definition baseCoeffsWithTime_into ::
  "MatrixXd \<Rightarrow> int \<Rightarrow> int \<Rightarrow> real \<Rightarrow> VectorXd \<Rightarrow> error + VectorXd" where
  "baseCoeffsWithTime_into tbl N derivative t coeffs =
     (if \<not> derivative < N then Inl CheckFailed
      else if \<not> derivative \<ge> 0 then Inl CheckFailed
      else
        bind_e (zero_vector N) (\<lambda>c0.
        bind_e (coeff2 tbl derivative derivative) (\<lambda>b.
        bind_e (assign_coeff c0 derivative b) (\<lambda>c1.
        if \<bar>t\<bar> < epsilon then Inr c1
        else baseCoeffs_loop tbl N derivative t (derivative + 1) t c1))))"

text \<open>The convenience form: \<^verbatim>\<open>Eigen::VectorXd c(N); baseCoeffsWithTime(N, derivative, t, &c); return c;\<close>\<close>

definition baseCoeffsWithTime :: "MatrixXd \<Rightarrow> int \<Rightarrow> int \<Rightarrow> real \<Rightarrow> error + VectorXd" where
  "baseCoeffsWithTime tbl N derivative t =
     bind_e (zero_vector N) (\<lambda>c. baseCoeffsWithTime_into tbl N derivative t c)"

section \<open>The extremum search\<close>

text \<open>
  Modelled from the spec: the two out-of-line \<^verbatim>\<open>findMinMax\<close> overloads are declared in
  the header, their bodies are not in it. The spec gives the algorithm: fail (return
  \<^verbatim>\<open>false\<close>) when \<open>t1 > t2\<close> or the order is negative; succeed trivially, with the
  constant zero function, when the order is at least \<open>N\<close>; otherwise take as candidate
  times \<open>t1\<close>, \<open>t2\<close> and the real parts of the admissible roots of the next-higher
  derivative (imaginary part within a tolerance of zero, real part in \<open>[t1, t2]\<close>),
  evaluate the derivative of the requested order at every candidate, and return the
  extremal values with their candidate times, the first occurrence winning a tie.
  The spec does not give the tolerance: it is a parameter. For the trivial success the
  spec gives no times: the model reports \<open>t1\<close> for both, which is what the first
  candidate would win on the constant zero function.
  \<open>Inr None\<close> is the structured failure (\<^verbatim>\<open>return false\<close>), \<open>Inl\<close> a fatal stop.
\<close>

record MinMax =
  t_min :: real
  t_max :: real
  min_val :: real
  max_val :: real

definition admissible :: "real \<Rightarrow> real \<Rightarrow> real \<Rightarrow> complex \<Rightarrow> bool" where
  "admissible tolerance t_1 t_2 z \<longleftrightarrow> \<bar>Im z\<bar> \<le> tolerance \<and> t_1 \<le> Re z \<and> Re z \<le> t_2"

definition candidates :: "real \<Rightarrow> real \<Rightarrow> real \<Rightarrow> complex list \<Rightarrow> real list" where
  "candidates tolerance t_1 t_2 roots_of_derivative =
     t_1 # t_2 # map Re (filter (admissible tolerance t_1 t_2) roots_of_derivative)"

fun evaluate_all :: "MatrixXd \<Rightarrow> Polynomial \<Rightarrow> int \<Rightarrow> real list \<Rightarrow> error + real list" where
  "evaluate_all tbl p order_to_evaluate [] = Inr []"
| "evaluate_all tbl p order_to_evaluate (t # ts) =
     (case evaluate tbl p t order_to_evaluate of Inl e \<Rightarrow> Inl e | Inr v \<Rightarrow>
       (case evaluate_all tbl p order_to_evaluate ts of Inl e \<Rightarrow> Inl e | Inr vs \<Rightarrow> Inr (v # vs)))"

definition update_min_max :: "MinMax \<Rightarrow> real \<times> real \<Rightarrow> MinMax" where
  "update_min_max acc tv =
     (let a = (if snd tv < min_val acc then acc\<lparr>t_min := fst tv, min_val := snd tv\<rparr> else acc)
      in if snd tv > max_val a then a\<lparr>t_max := fst tv, max_val := snd tv\<rparr> else a)"

fun select_min_max :: "MinMax \<Rightarrow> (real \<times> real) list \<Rightarrow> MinMax" where
  "select_min_max acc [] = acc"
| "select_min_max acc (tv # rest) = select_min_max (update_min_max acc tv) rest"

definition findMinMax_roots ::
  "MatrixXd \<Rightarrow> real \<Rightarrow> Polynomial \<Rightarrow> real \<Rightarrow> real \<Rightarrow> int \<Rightarrow> complex list \<Rightarrow> error + MinMax option" where
  "findMinMax_roots tbl tolerance p t_1 t_2 order_to_evaluate roots_of_derivative =
     (if t_1 > t_2 then Inr None
      else if order_to_evaluate < 0 then Inr None
      else if order_to_evaluate \<ge> m_N p then
        Inr (Some \<lparr>t_min = t_1, t_max = t_1, min_val = 0, max_val = 0\<rparr>)
      else
        (case evaluate_all tbl p order_to_evaluate
                (candidates tolerance t_1 t_2 roots_of_derivative) of
           Inl e \<Rightarrow> Inl e
         | Inr vs \<Rightarrow>
            (case zip (candidates tolerance t_1 t_2 roots_of_derivative) vs of
               [] \<Rightarrow> Inr None
             | (t, v) # rest \<Rightarrow>
                Inr (Some (select_min_max
                  \<lparr>t_min = t, t_max = t, min_val = v, max_val = v\<rparr> rest)))))"

text \<open>
  The overload without precomputed roots obtains them from the root solver, run on the
  coefficients of the next-higher derivative.
\<close>

definition findMinMax ::
  "MatrixXd \<Rightarrow> (VectorXd \<Rightarrow> complex list) \<Rightarrow> real \<Rightarrow> Polynomial \<Rightarrow> real \<Rightarrow> real \<Rightarrow> int
   \<Rightarrow> error + MinMax option" where
  "findMinMax tbl findRootsJenkinsTraub tolerance p t_1 t_2 order_to_evaluate =
     (if t_1 > t_2 then Inr None
      else if order_to_evaluate < 0 then Inr None
      else if order_to_evaluate \<ge> m_N p then
        Inr (Some \<lparr>t_min = t_1, t_max = t_1, min_val = 0, max_val = 0\<rparr>)
      else
        bind_e (getCoefficients tbl p (order_to_evaluate + 1)) (\<lambda>cs.
        findMinMax_roots tbl tolerance p t_1 t_2 order_to_evaluate (findRootsJenkinsTraub cs)))"

section \<open>The process over its lifetime\<close>

text \<open>
  The static \<^verbatim>\<open>base_coefficients_\<close> is declared public and not \<^verbatim>\<open>const\<close>: it is a
  variable of the process, not a constant of the program. The state of the process is
  the table together with an instance; every member reads the table of the state it is
  called in. Static initialisation builds the table once, with
  \<^verbatim>\<open>computeBaseCoefficients(kMaxN)\<close>.
\<close>

record process =
  table :: MatrixXd
  poly :: Polynomial

definition initial :: "Polynomial \<Rightarrow> process" where
  "initial p = \<lparr>table = computeBaseCoefficients kMaxN, poly = p\<rparr>"

text \<open>
  A call of a public member (on the instance, or of the static \<^verbatim>\<open>baseCoeffsWithTime\<close>) and
  the state after the call. Every member function but \<^verbatim>\<open>setCoefficients\<close> is declared
  \<^verbatim>\<open>const\<close> or \<^verbatim>\<open>static\<close>, and no member body assigns to the table; a fatal stop ends
  the lifetime.
\<close>

datatype call =
    SetCoefficients VectorXd
  | GetCoefficients int
  | EvaluateVec real VectorXd
  | Evaluate real int
  | ComputeRoots
  | FindMinMaxRoots real real int "complex list"
  | FindMinMax real real int
  | GetN
  | Equals Polynomial
  | NotEquals Polynomial
  | BaseCoeffsWithTime int int real

datatype result =
    RVoid
  | RVector VectorXd
  | RDouble real
  | RRoots "complex list"
  | RMinMax "MinMax option"
  | RInt int
  | RBool bool

fun exec ::
  "(VectorXd \<Rightarrow> complex list) \<Rightarrow> real \<Rightarrow> process \<Rightarrow> call \<Rightarrow> error + process \<times> result" where
  "exec solver tol s (SetCoefficients coeffs) =
     (case setCoefficients (poly s) coeffs of
        Inl e \<Rightarrow> Inl e | Inr p' \<Rightarrow> Inr (s\<lparr>poly := p'\<rparr>, RVoid))"
| "exec solver tol s (GetCoefficients derivative) =
     (case getCoefficients (table s) (poly s) derivative of
        Inl e \<Rightarrow> Inl e | Inr v \<Rightarrow> Inr (s, RVector v))"
| "exec solver tol s (EvaluateVec t res) =
     (case evaluate_vec (table s) (poly s) t res of
        Inl e \<Rightarrow> Inl e | Inr v \<Rightarrow> Inr (s, RVector v))"
| "exec solver tol s (Evaluate t derivative) =
     (case evaluate (table s) (poly s) t derivative of
        Inl e \<Rightarrow> Inl e | Inr v \<Rightarrow> Inr (s, RDouble v))"
| "exec solver tol s ComputeRoots = Inr (s, RRoots (computeRoots solver (poly s)))"
| "exec solver tol s (FindMinMaxRoots t_1 t_2 order_to_evaluate roots_of_derivative) =
     (case findMinMax_roots (table s) tol (poly s) t_1 t_2 order_to_evaluate
             roots_of_derivative of
        Inl e \<Rightarrow> Inl e | Inr r \<Rightarrow> Inr (s, RMinMax r))"
| "exec solver tol s (FindMinMax t_1 t_2 order_to_evaluate) =
     (case findMinMax (table s) solver tol (poly s) t_1 t_2 order_to_evaluate of
        Inl e \<Rightarrow> Inl e | Inr r \<Rightarrow> Inr (s, RMinMax r))"
| "exec solver tol s GetN = Inr (s, RInt (getN (poly s)))"
| "exec solver tol s (Equals rhs) =
     (case equals (poly s) rhs of Inl e \<Rightarrow> Inl e | Inr b \<Rightarrow> Inr (s, RBool b))"
| "exec solver tol s (NotEquals rhs) =
     (case not_equals (poly s) rhs of Inl e \<Rightarrow> Inl e | Inr b \<Rightarrow> Inr (s, RBool b))"
| "exec solver tol s (BaseCoeffsWithTime N derivative t) =
     (case baseCoeffsWithTime (table s) N derivative t of
        Inl e \<Rightarrow> Inl e | Inr v \<Rightarrow> Inr (s, RVector v))"

fun run ::
  "(VectorXd \<Rightarrow> complex list) \<Rightarrow> real \<Rightarrow> process \<Rightarrow> call list \<Rightarrow> error + process" where
  "run solver tol s [] = Inr s"
| "run solver tol s (c # cs) =
     (case exec solver tol s c of Inl e \<Rightarrow> Inl e | Inr (s', r) \<Rightarrow> run solver tol s' cs)"

definition is_query :: "call \<Rightarrow> bool" where
  "is_query c = (case c of SetCoefficients coeffs \<Rightarrow> False | _ \<Rightarrow> True)"

text \<open>
  The first occurrence of a value in a sequence: \<open>x\<close> stands at index \<open>i\<close> and nowhere
  before it.
\<close>

definition first_at :: "real list \<Rightarrow> real \<Rightarrow> nat \<Rightarrow> bool" where
  "first_at vs x i \<longleftrightarrow> i < length vs \<and> vs ! i = x \<and> x \<notin> set (take i vs)"

text \<open>
  What the running record of the search has to hold of the candidates seen so far: the
  extremal values, each with the time of its first occurrence.
\<close>

definition tracks :: "real list \<Rightarrow> real list \<Rightarrow> MinMax \<Rightarrow> bool" where
  "tracks ts vs acc \<longleftrightarrow>
     min_val acc = Min (set vs) \<and> max_val acc = Max (set vs)
     \<and> (\<exists>i \<in> {..<length vs}. first_at vs (Min (set vs)) i \<and> t_min acc = ts ! i)
     \<and> (\<exists>i \<in> {..<length vs}. first_at vs (Max (set vs)) i \<and> t_max acc = ts ! i)"

text \<open>
  The closed form the evaluation is compared with: the \<open>d\<close>-th derivative of
  \<open>c\<^sub>0 + c\<^sub>1 t + \<dots> + c\<^sub>N\<^sub>-\<^sub>1 t\<^sup>N\<^sup>-\<^sup>1\<close> at \<open>t\<close>.
\<close>

definition derivative_value :: "VectorXd \<Rightarrow> nat \<Rightarrow> real \<Rightarrow> real" where
  "derivative_value cs d t =
     (\<Sum>j = d..<length cs. cs ! j * (fact j / fact (j - d)) * t ^ (j - d))"

section \<open>Properties of the basis table\<close>

lemma falling_factorial_fact:
  "d \<le> j \<Longrightarrow> falling_factorial j d = fact j / fact (j - d)"
proof (induction d)
  case 0
  then show ?case by simp
next
  case (Suc d)
  then have lt: "d < j" by simp
  then have "j - d = Suc (j - Suc d)" by simp
  then have f: "(fact (j - d) :: real) = real (j - d) * fact (j - Suc d)"
    by (metis fact_Suc)
  have "real (j - d) = real j - real d" using lt by (simp add: of_nat_diff)
  with Suc f lt show ?case by simp
qed

lemma rows_base: "rows base_coefficients = kMaxN"
  by (simp add: rows_def base_coefficients_def computeBaseCoefficients_def kMaxN_def)

lemma cols_base: "cols base_coefficients = kMaxN"
  by (simp add: cols_def base_coefficients_def computeBaseCoefficients_def kMaxN_def upt_rec split: list.splits)

lemma base_row:
  "d < nat kMaxN \<Longrightarrow> base_coefficients ! d = map (base_entry d) [0..<nat kMaxN]"
  by (simp add: base_coefficients_def computeBaseCoefficients_def)

lemma base_nth:
  "d < nat kMaxN \<Longrightarrow> j < nat kMaxN \<Longrightarrow> base_coefficients ! d ! j = base_entry d j"
  by (simp add: base_row)

lemma coeff2_base:
  "0 \<le> d \<Longrightarrow> d < kMaxN \<Longrightarrow> 0 \<le> j \<Longrightarrow> j < kMaxN \<Longrightarrow>
   coeff2 base_coefficients d j = Inr (base_entry (nat d) (nat j))"
  by (simp add: coeff2_def rows_base cols_base base_nth)

lemma block_1_base:
  assumes "0 \<le> d" "d < kMaxN" "0 \<le> s" "0 \<le> n" "s + n \<le> kMaxN"
  shows "block_1 base_coefficients d s n = Inr (map (base_entry (nat d)) [nat s..<nat s + nat n])"
proof -
  have r: "base_coefficients ! nat d = map (base_entry (nat d)) [0..<nat kMaxN]"
    using assms by (simp add: base_row)
  have "nat s + nat n \<le> nat kMaxN" using assms by simp
  then have "take (nat n) (drop (nat s) [0..<nat kMaxN]) = [nat s..<nat s + nat n]"
    by (simp add: take_upt)
  then have "take (nat n) (drop (nat s) (base_coefficients ! nat d))
      = map (base_entry (nat d)) [nat s..<nat s + nat n]"
    by (simp only: r drop_map take_map)
  then show ?thesis
    using assms by (simp add: block_1_def rows_base cols_base)
qed

lemma block_1_base_fail:
  "\<not> (0 \<le> d \<and> d < kMaxN \<and> 0 \<le> s \<and> 0 \<le> n \<and> s + n \<le> kMaxN) \<Longrightarrow>
   block_1 base_coefficients d s n = Inl EigenAssert"
  by (auto simp add: block_1_def rows_base cols_base)

lemma base_entry_fact: "d \<le> j \<Longrightarrow> base_entry d j = fact j / fact (j - d)"
  by (simp add: base_entry_def falling_factorial_fact)

lemma falling_factorial_prod: "falling_factorial j d = (\<Prod>k = 0..<d. real j - real k)"
  by (induction d) simp_all

section \<open>The scalar evaluation\<close>

lemma evaluate_loop_sum:
  assumes "0 \<le> d" "j < int (length row)" "j < int (length cs)" "d - 1 \<le> j"
  shows "evaluate_loop row cs t d j acc =
     Inr (acc * t ^ nat (j - d + 1)
          + (\<Sum>k = nat d..<nat (j + 1). row ! k * cs ! k * t ^ (k - nat d)))"
  using assms
proof (induction row cs t d j acc rule: evaluate_loop.induct)
  case (1 row cs t d j acc)
  show ?case
  proof (cases "j \<ge> d")
    case False
    with "1.prems" have "j = d - 1" by simp
    then show ?thesis using False "1.prems" by (simp add: evaluate_loop.simps)
  next
    case True
    have cr: "coeff row j = Inr (row ! nat j)" and cc: "coeff cs j = Inr (cs ! nat j)"
      using True "1.prems" by (simp_all add: coeff_def)
    have ih: "evaluate_loop row cs t d (j - 1) (acc * t + row ! nat j * cs ! nat j) =
       Inr ((acc * t + row ! nat j * cs ! nat j) * t ^ nat (j - 1 - d + 1)
          + (\<Sum>k = nat d..<nat (j - 1 + 1). row ! k * cs ! k * t ^ (k - nat d)))"
      using "1.IH"[OF True cr cc] "1.prems" True by simp
    have e1: "nat (j - d + 1) = Suc (nat (j - d))" using True by simp
    have e2: "nat (j + 1) = Suc (nat j)" using True "1.prems" by simp
    have e3: "nat j - nat d = nat (j - d)" using True "1.prems" by simp
    have e4: "nat d \<le> nat j" using True "1.prems" by simp
    have e5: "nat (j - 1 - d + 1) = nat (j - d)" "nat (j - 1 + 1) = nat j" by simp_all
    have step: "evaluate_loop row cs t d j acc =
        evaluate_loop row cs t d (j - 1) (acc * t + row ! nat j * cs ! nat j)"
      by (subst evaluate_loop.simps) (simp add: True cr cc)
    have "(acc * t + row ! nat j * cs ! nat j) * t ^ nat (j - d)
          + (\<Sum>k = nat d..<nat j. row ! k * cs ! k * t ^ (k - nat d))
        = acc * t ^ Suc (nat (j - d))
          + (\<Sum>k = nat d..<Suc (nat j). row ! k * cs ! k * t ^ (k - nat d))"
      using e4 True by (simp add: e3 algebra_simps)
    then show ?thesis
      by (simp only: step ih e1 e2 e5)
  qed
qed


lemma evaluate_value:
  assumes wfp: "wf_Polynomial p" and sup: "m_N p \<le> kMaxN" and d0: "0 \<le> d" and dN: "d < m_N p"
  shows "evaluate base_coefficients p t d = Inr (derivative_value (m_coefficients p) (nat d) t)"
proof -
  define cs where "cs = m_coefficients p"
  define n where "n = nat (m_N p)"
  define row where "row = map (base_entry (nat d)) [0..<n]"
  have len: "int (length cs) = m_N p" using wfp by (simp add: wf_Polynomial_def cs_def)
  have n: "length cs = n" "m_N p = int n" "0 < n" "nat d < n"
    using len d0 dN by (simp_all add: n_def)
  have blk: "block_1 base_coefficients d 0 (m_N p) = Inr row"
    using block_1_base[of d 0 "m_N p"] d0 dN sup by (simp add: row_def n_def)
  have lr: "length row = n" by (simp add: row_def)
  have cr: "coeff row (m_N p - 1) = Inr (row ! (n - 1))"
    using n by (simp add: coeff_def lr nat_diff_distrib)
  have cc: "coeff cs (m_N p - 1) = Inr (cs ! (n - 1))"
    using n by (simp add: coeff_def nat_diff_distrib)
  have loop: "evaluate_loop row cs t d (m_N p - 1 - 1) (row ! (n - 1) * cs ! (n - 1)) =
      Inr (row ! (n - 1) * cs ! (n - 1) * t ^ nat (m_N p - 1 - 1 - d + 1)
           + (\<Sum>k = nat d..<nat (m_N p - 1 - 1 + 1). row ! k * cs ! k * t ^ (k - nat d)))"
    using n d0 dN by (intro evaluate_loop_sum) (simp_all add: lr)
  have e1: "nat (m_N p - 1 - 1 - d + 1) = (n - 1) - nat d" using n d0 dN by simp
  have e2: "nat (m_N p - 1 - 1 + 1) = n - 1" using n by simp
  have split: "{nat d..<n} = insert (n - 1) {nat d..<n - 1}" using n by auto
  have "row ! (n - 1) * cs ! (n - 1) * t ^ ((n - 1) - nat d)
        + (\<Sum>k = nat d..<n - 1. row ! k * cs ! k * t ^ (k - nat d))
      = (\<Sum>k = nat d..<n. row ! k * cs ! k * t ^ (k - nat d))"
    by (simp add: split)
  also have "\<dots> = (\<Sum>k = nat d..<n. cs ! k * (fact k / fact (k - nat d)) * t ^ (k - nat d))"
    by (rule sum.cong) (simp_all add: row_def base_entry_fact)
  finally have val: "row ! (n - 1) * cs ! (n - 1) * t ^ ((n - 1) - nat d)
        + (\<Sum>k = nat d..<n - 1. row ! k * cs ! k * t ^ (k - nat d))
      = derivative_value cs (nat d) t"
    by (simp add: derivative_value_def n)
  have "evaluate base_coefficients p t d =
      evaluate_loop row cs t d (m_N p - 1 - 1) (row ! (n - 1) * cs ! (n - 1))"
    using dN by (simp add: evaluate_def blk bind_e_def cs_def[symmetric] cr cc)
  then have "evaluate base_coefficients p t d = Inr (derivative_value cs (nat d) t)"
    by (simp only: loop e1 e2 val)
  then show ?thesis by (simp only: cs_def)
qed

lemma evaluate_unsupported:
  assumes "wf_Polynomial p" "d < m_N p" "\<not> (m_N p \<le> kMaxN \<and> 0 \<le> d)"
  shows "evaluate base_coefficients p t d = Inl EigenAssert"
proof -
  have "block_1 base_coefficients d 0 (m_N p) = Inl EigenAssert"
    using assms by (intro block_1_base_fail) auto
  then show ?thesis using assms by (simp add: evaluate_def bind_e_def)
qed


lemma derivative_value_0: "derivative_value cs 0 t = (\<Sum>j = 0..<length cs. cs ! j * t ^ j)"
  by (simp add: derivative_value_def)

lemma derivative_value_Suc:
  "((\<lambda>t. derivative_value cs d t) has_real_derivative derivative_value cs (Suc d) t) (at t)"
proof -
  have tm: "((\<lambda>t. cs ! j * (fact j / fact (j - d)) * t ^ (j - d)) has_real_derivative
      (if j = d then 0 else cs ! j * (fact j / fact (j - Suc d)) * t ^ (j - Suc d))) (at t)"
    if "d \<le> j" for j
  proof (cases "j = d")
    case True
    then show ?thesis by simp
  next
    case False
    with that have lt: "d < j" by simp
    then have "j - d = Suc (j - Suc d)" by simp
    then have f: "(fact (j - d) :: real) = real (j - d) * fact (j - Suc d)"
      by (metis fact_Suc)
    have "((\<lambda>t. cs ! j * (fact j / fact (j - d)) * t ^ (j - d)) has_real_derivative
        cs ! j * (fact j / fact (j - d)) * (real (j - d) * t ^ (j - d - 1))) (at t)"
      by (auto intro!: derivative_eq_intros)
    moreover have "cs ! j * (fact j / fact (j - d)) * (real (j - d) * t ^ (j - d - 1))
        = cs ! j * (fact j / fact (j - Suc d)) * t ^ (j - Suc d)"
      using lt by (simp add: f)
    ultimately show ?thesis using False by simp
  qed
  have "((\<lambda>t. \<Sum>j = d..<length cs. cs ! j * (fact j / fact (j - d)) * t ^ (j - d))
      has_real_derivative
      (\<Sum>j = d..<length cs.
          if j = d then 0 else cs ! j * (fact j / fact (j - Suc d)) * t ^ (j - Suc d))) (at t)"
    by (intro DERIV_sum tm) simp
  moreover have "(\<Sum>j = d..<length cs.
          if j = d then 0 else cs ! j * (fact j / fact (j - Suc d)) * t ^ (j - Suc d))
      = (\<Sum>j = Suc d..<length cs. cs ! j * (fact j / fact (j - Suc d)) * t ^ (j - Suc d))"
    by (intro sum.mono_neutral_cong_right) auto
  ultimately show ?thesis
    by (simp add: derivative_value_def[abs_def] derivative_value_def)
qed


text \<open>
  C1 (amended). For every polynomial of order \<open>N\<close> with \<open>N \<le> kMaxN\<close> and coefficients
  \<open>c\<^sub>0 \<dots> c\<^sub>N\<^sub>-\<^sub>1\<close>, and every derivative index \<open>d\<close> with \<open>0 \<le> d < N\<close>, the scalar
  \<open>evaluate(t, d)\<close> returns the sum over \<open>j\<close> from \<open>d\<close> to \<open>N - 1\<close> of
  \<open>c\<^sub>j \<cdot> (j!/(j-d)!) \<cdot> t\<^sup>j\<^sup>-\<^sup>d\<close>, computed over the reals. That sum is the value of the
  \<open>d\<close>-th derivative: for \<open>d = 0\<close> it is the polynomial, and the sum for \<open>d + 1\<close> is the
  derivative of the sum for \<open>d\<close>.
\<close>

theorem evaluate_is_derivative:
  assumes "wf_Polynomial p" and "m_N p \<le> kMaxN" and "0 \<le> d" and "d < m_N p"
  shows "evaluate base_coefficients p t d =
       Inr (\<Sum>j = nat d..<nat (m_N p).
              m_coefficients p ! j * (fact j / fact (j - nat d)) * t ^ (j - nat d))
     \<and> evaluate base_coefficients p t d = Inr (derivative_value (m_coefficients p) (nat d) t)
     \<and> derivative_value (m_coefficients p) 0 t
         = (\<Sum>j = 0..<nat (m_N p). m_coefficients p ! j * t ^ j)
     \<and> (\<forall>k u. ((\<lambda>t. derivative_value (m_coefficients p) k t) has_real_derivative
                 derivative_value (m_coefficients p) (Suc k) u) (at u))"
proof -
  have l: "length (m_coefficients p) = nat (m_N p)"
    using assms(1) by (simp add: wf_Polynomial_def)
  have a: "evaluate base_coefficients p t d = Inr (derivative_value (m_coefficients p) (nat d) t)"
    using evaluate_value[OF assms] .
  then have b: "evaluate base_coefficients p t d =
       Inr (\<Sum>j = nat d..<nat (m_N p).
              m_coefficients p ! j * (fact j / fact (j - nat d)) * t ^ (j - nat d))"
    by (simp add: derivative_value_def l)
  have c: "derivative_value (m_coefficients p) 0 t
         = (\<Sum>j = 0..<nat (m_N p). m_coefficients p ! j * t ^ j)"
    by (simp add: derivative_value_0 l)
  have e: "\<forall>k u. ((\<lambda>t. derivative_value (m_coefficients p) k t) has_real_derivative
                 derivative_value (m_coefficients p) (Suc k) u) (at u)"
    using derivative_value_Suc by blast
  from b a c e show ?thesis by (intro conjI)
qed

theorem evaluate_is_derivative_witness:
  "wf_Polynomial \<lparr>m_N = 3, m_coefficients = [1, 2, 3]\<rparr>
   \<and> m_N \<lparr>m_N = 3, m_coefficients = [1, 2, 3]\<rparr> \<le> kMaxN
   \<and> (0::int) \<le> 1 \<and> 1 < m_N \<lparr>m_N = 3, m_coefficients = [1, 2, 3]\<rparr>
   \<and> evaluate base_coefficients \<lparr>m_N = 3, m_coefficients = [1, 2, 3]\<rparr> 2 1 = Inr 14"
proof -
  have h: "wf_Polynomial \<lparr>m_N = 3, m_coefficients = [1, 2, 3]\<rparr>"
    "m_N \<lparr>m_N = 3, m_coefficients = [1, 2, 3]\<rparr> \<le> kMaxN"
    "(0::int) \<le> 1" "1 < m_N \<lparr>m_N = 3, m_coefficients = [1, 2, 3]\<rparr>"
    by (simp_all add: wf_Polynomial_def kMaxN_def)
  have s: "{Suc 0..<3} = {1, 2::nat}" by auto
  have "evaluate base_coefficients \<lparr>m_N = 3, m_coefficients = [1, 2, 3]\<rparr> 2 1 =
       Inr (\<Sum>j = nat 1..<nat (m_N \<lparr>m_N = 3, m_coefficients = [1, 2, 3]\<rparr>).
              m_coefficients \<lparr>m_N = 3, m_coefficients = [1, 2, 3]\<rparr> ! j
              * (fact j / fact (j - nat 1)) * 2 ^ (j - nat 1))"
    using evaluate_is_derivative[OF h, of 2] by (rule conjunct1)
  then have "evaluate base_coefficients \<lparr>m_N = 3, m_coefficients = [1, 2, 3]\<rparr> 2 1 = Inr 14"
    by (simp add: s fact_numeral)
  then show ?thesis using h by simp
qed

text \<open>
  Without the bound on the order the property fails: a polynomial of order 13 is
  constructible, and its evaluation asks the table of side 12 for a row of 13 columns.
\<close>

theorem evaluate_order_13_counterexample:
  "wf_Polynomial \<lparr>m_N = 13, m_coefficients = [1, 0, 0, 0, 0, 0, 0, 0, 0, 0, 0, 0, 0]\<rparr>
   \<and> evaluate base_coefficients \<lparr>m_N = 13, m_coefficients = [1, 0, 0, 0, 0, 0, 0, 0, 0, 0, 0, 0, 0]\<rparr> 2 0
       = Inl EigenAssert"
  by (simp add: wf_Polynomial_def evaluate_def block_1_def rows_base cols_base kMaxN_def
      bind_e_def)

section \<open>Derivative coefficients\<close>

lemma getCoefficients_derivative:
  assumes wfp: "wf_Polynomial p" and sup: "m_N p \<le> kMaxN"
    and d0: "0 < d" and dN: "d \<le> m_N p" and dK: "d < kMaxN"
  shows "getCoefficients base_coefficients p d =
     Inr (map (\<lambda>i. m_coefficients p ! (i + nat d) * base_entry (nat d) (i + nat d))
            [0..<nat (m_N p - d)] @ replicate (nat d) 0)"
proof -
  define cs where "cs = m_coefficients p"
  define n where "n = nat (m_N p)"
  define k where "k = nat d"
  have n: "length cs = n" "m_N p = int n" "d = int k" "0 < k" "k \<le> n"
    using wfp d0 dN by (simp_all add: wf_Polynomial_def cs_def n_def k_def)
  have z: "zero_vector (m_N p) = Inr (replicate n 0)"
    by (simp add: zero_vector_def n)
  have nk: "nat (m_N p - d) = n - k" "nat (int n - int k) = n - k" using n by simp_all
  have t: "tail cs (m_N p - d) = Inr (drop k cs)"
    using n by (simp add: tail_def nk)
  have b: "block_1 base_coefficients d d (m_N p - d) = Inr (map (base_entry k) [k..<n])"
    using block_1_base[of d d "m_N p - d"] sup dK n by (simp add: nk)
  have dr: "drop k cs = map (\<lambda>i. cs ! (i + k)) [0..<n - k]"
    using n by (intro nth_equalityI) (simp_all add: add.commute)
  have bm: "map (base_entry k) [k..<n] = map (\<lambda>i. base_entry k (i + k)) [0..<n - k]"
    using n by (intro nth_equalityI) (simp_all add: add.commute)
  have c: "cwiseProduct (drop k cs) (map (base_entry k) [k..<n])
      = Inr (map (\<lambda>i. cs ! (i + k) * base_entry k (i + k)) [0..<n - k])"
    unfolding dr bm cwiseProduct_def by (auto intro!: nth_equalityI)
  have a: "assign_head (replicate n 0) (m_N p - d)
        (map (\<lambda>i. cs ! (i + k) * base_entry k (i + k)) [0..<n - k])
      = Inr (map (\<lambda>i. cs ! (i + k) * base_entry k (i + k)) [0..<n - k] @ replicate k 0)"
    using n by (simp add: assign_head_def nk)
  show ?thesis
    using d0 dN
    by (simp add: getCoefficients_def bind_e_def z t b c a nk k_def[symmetric]
        cs_def[symmetric])
qed


lemma getCoefficients_zero:
  "wf_Polynomial p \<Longrightarrow> getCoefficients base_coefficients p 0 = Inr (m_coefficients p)"
  by (simp add: getCoefficients_def wf_Polynomial_def)

lemma getCoefficients_beyond:
  "d > m_N p \<Longrightarrow> getCoefficients base_coefficients p d = Inl CheckFailed"
  by (simp add: getCoefficients_def)

text \<open>
  C2 (amended). For every polynomial of order \<open>N\<close>, \<open>getCoefficients(0)\<close> returns the stored
  coefficients unchanged. For \<open>N \<le> kMaxN\<close> and every derivative index \<open>d\<close> with
  \<open>0 < d \<le> N\<close> and \<open>d < kMaxN\<close>, \<open>getCoefficients(d)\<close> returns a sequence of length \<open>N\<close> whose
  entry \<open>i\<close> is \<open>coefficients[i+d] \<cdot> B[d][i+d]\<close> for \<open>i\<close> in \<open>[0, N-d)\<close> and \<open>0\<close> for
  \<open>i \<ge> N-d\<close>, so that \<open>d = N\<close> yields the all-zero sequence. It fails when \<open>d > N\<close>.
\<close>

theorem getCoefficients_spec:
  assumes "wf_Polynomial p"
  shows "getCoefficients base_coefficients p 0 = Inr (m_coefficients p)
    \<and> (0 < d \<and> d \<le> m_N p \<and> m_N p \<le> kMaxN \<and> d < kMaxN \<longrightarrow>
         getCoefficients base_coefficients p d =
           Inr (map (\<lambda>i. if int i < m_N p - d
                          then m_coefficients p ! (i + nat d)
                               * base_coefficients ! nat d ! (i + nat d)
                          else 0) [0..<nat (m_N p)]))
    \<and> (d > m_N p \<longrightarrow> getCoefficients base_coefficients p d = Inl CheckFailed)"
proof (intro conjI impI)
  show "getCoefficients base_coefficients p 0 = Inr (m_coefficients p)"
    using assms by (rule getCoefficients_zero)
next
  assume "d > m_N p"
  then show "getCoefficients base_coefficients p d = Inl CheckFailed" by (rule getCoefficients_beyond)
next
  assume h: "0 < d \<and> d \<le> m_N p \<and> m_N p \<le> kMaxN \<and> d < kMaxN"
  define n where "n = nat (m_N p)"
  define k where "k = nat d"
  have n: "m_N p = int n" "d = int k" "0 < k" "k \<le> n" "n \<le> nat kMaxN" "k < nat kMaxN"
    using assms h by (auto simp add: wf_Polynomial_def n_def k_def)
  have "map (\<lambda>i. m_coefficients p ! (i + k) * base_entry k (i + k)) [0..<n - k] @ replicate k 0
      = map (\<lambda>i. if int i < int n - int k
                  then m_coefficients p ! (i + k) * base_coefficients ! k ! (i + k)
                  else 0) [0..<n]"
    using n by (intro nth_equalityI) (auto simp add: nth_append base_nth)
  moreover have "nat (m_N p - d) = n - k" using n by simp
  ultimately show "getCoefficients base_coefficients p d =
           Inr (map (\<lambda>i. if int i < m_N p - d
                          then m_coefficients p ! (i + nat d)
                               * base_coefficients ! nat d ! (i + nat d)
                          else 0) [0..<nat (m_N p)])"
    using getCoefficients_derivative[OF assms, of d] h
    by (simp add: n_def[symmetric] k_def[symmetric] n(1,2))
qed

theorem getCoefficients_spec_witness:
  "wf_Polynomial \<lparr>m_N = 4, m_coefficients = [1, 2, 3, 4]\<rparr>
   \<and> getCoefficients base_coefficients \<lparr>m_N = 4, m_coefficients = [1, 2, 3, 4]\<rparr> 0 = Inr [1, 2, 3, 4]
   \<and> getCoefficients base_coefficients \<lparr>m_N = 4, m_coefficients = [1, 2, 3, 4]\<rparr> 2 = Inr [6, 24, 0, 0]
   \<and> getCoefficients base_coefficients \<lparr>m_N = 4, m_coefficients = [1, 2, 3, 4]\<rparr> 4 = Inr [0, 0, 0, 0]
   \<and> getCoefficients base_coefficients \<lparr>m_N = 4, m_coefficients = [1, 2, 3, 4]\<rparr> 5 = Inl CheckFailed"
proof -
  have w: "wf_Polynomial \<lparr>m_N = 4, m_coefficients = [1, 2, 3, 4]\<rparr>"
    by (simp add: wf_Polynomial_def)
  have u: "[0..<4] = [0, 1, 2, 3]" by (simp add: upt_rec)
  have b: "base_coefficients ! Suc (Suc 0) ! Suc (Suc 0) = 2"
    "base_coefficients ! Suc (Suc 0) ! Suc (Suc (Suc 0)) = 6"
    by (simp_all add: base_nth kMaxN_def base_entry_def)
  show ?thesis
    using getCoefficients_spec[OF w, of 2] getCoefficients_spec[OF w, of 4]
      getCoefficients_spec[OF w, of 5]
    by (simp add: w kMaxN_def u b eval_nat_numeral)
qed

text \<open>
  Beyond the table the property fails: for order 13 and \<open>d = 1\<close> the block of
  12 columns from column 1 does not fit the table of side 12.
\<close>

theorem getCoefficients_order_13_counterexample:
  "wf_Polynomial \<lparr>m_N = 13, m_coefficients = [1, 0, 0, 0, 0, 0, 0, 0, 0, 0, 0, 0, 0]\<rparr>
   \<and> getCoefficients base_coefficients \<lparr>m_N = 13, m_coefficients = [1, 0, 0, 0, 0, 0, 0, 0, 0, 0, 0, 0, 0]\<rparr> 1
       = Inl EigenAssert"
  by (simp add: wf_Polynomial_def getCoefficients_def zero_vector_def tail_def block_1_def
      rows_base cols_base kMaxN_def bind_e_def)

text \<open>
  The corner \<open>d = N = kMaxN\<close> passes \<^verbatim>\<open>CHECK_LE(derivative, N_)\<close> and then asks for a block
  (of no columns) in row \<open>kMaxN\<close>, which the table does not have.
\<close>

lemma getCoefficients_order_kMaxN:
  "wf_Polynomial p \<Longrightarrow> m_N p = kMaxN \<Longrightarrow> getCoefficients base_coefficients p kMaxN = Inl EigenAssert"
  by (simp add: wf_Polynomial_def getCoefficients_def zero_vector_def tail_def block_1_def
      rows_base cols_base kMaxN_def bind_e_def)


section \<open>The vector evaluation\<close>

lemma evaluate_vec_inner_eq:
  "evaluate_vec_inner row cs t i j acc = evaluate_loop row cs t i j acc"
proof (induction row cs t i j acc rule: evaluate_loop.induct)
  case (1 row cs t d j acc)
  show ?case
    apply (subst evaluate_vec_inner.simps)
    apply (subst evaluate_loop.simps)
    using "1.IH" by (auto split: sum.splits)
qed

lemma evaluate_vec_outer_step:
  assumes "i < max_deg" "max_deg \<le> m_N p"
  shows "evaluate_vec_outer base_coefficients p t max_deg i result =
     (case evaluate base_coefficients p t i of Inl e \<Rightarrow> Inl e | Inr acc \<Rightarrow>
       (case assign_coeff result i acc of Inl e \<Rightarrow> Inl e | Inr result' \<Rightarrow>
          evaluate_vec_outer base_coefficients p t max_deg (i + 1) result'))"
  apply (subst evaluate_vec_outer.simps)
  using assms
  by (simp add: evaluate_def bind_e_def Let_def evaluate_vec_inner_eq split: sum.splits)

lemma evaluate_vec_outer_supported:
  assumes "wf_Polynomial p" "m_N p \<le> kMaxN" "max_deg \<le> m_N p" "int (length result) = max_deg"
    "0 \<le> i" "i \<le> max_deg"
  shows "evaluate_vec_outer base_coefficients p t max_deg i result =
     Inr (take (nat i) result
          @ map (\<lambda>k. derivative_value (m_coefficients p) k t) [nat i..<nat max_deg])"
  using assms(4-6)
proof (induction "nat (max_deg - i)" arbitrary: i result)
  case 0
  then have "i = max_deg" by simp
  then show ?case
    using 0 by (subst evaluate_vec_outer.simps) simp
next
  case (Suc m)
  then have lt: "i < max_deg" by simp
  define v where "v = derivative_value (m_coefficients p) (nat i) t"
  have ev: "evaluate base_coefficients p t i = Inr v"
    using evaluate_value[of p i t] assms(1-3) Suc.prems lt by (simp add: v_def)
  have as: "assign_coeff result i v = Inr (result[nat i := v])"
    using Suc.prems lt by (simp add: assign_coeff_def)
  have rec: "evaluate_vec_outer base_coefficients p t max_deg (i + 1) (result[nat i := v]) =
      Inr (take (nat (i + 1)) (result[nat i := v])
        @ map (\<lambda>k. derivative_value (m_coefficients p) k t) [nat (i + 1)..<nat max_deg])"
    using Suc.hyps(2) Suc.prems lt by (intro Suc.hyps(1)) simp_all
  have i1: "nat (i + 1) = Suc (nat i)" using Suc.prems by simp
  have ni: "nat i < length result" "nat i < nat max_deg" using Suc.prems lt by simp_all
  have tk: "take (Suc (nat i)) (result[nat i := v]) = take (nat i) result @ [v]"
    using ni by (simp add: take_Suc_conv_app_nth)
  have up: "[nat i..<nat max_deg] = nat i # [Suc (nat i)..<nat max_deg]"
    using ni by (simp add: upt_conv_Cons)
  have "evaluate_vec_outer base_coefficients p t max_deg i result =
      Inr (take (nat i) result
        @ v # map (\<lambda>k. derivative_value (m_coefficients p) k t) [Suc (nat i)..<nat max_deg])"
    by (simp add: evaluate_vec_outer_step[OF lt assms(3)] ev as rec i1 tk)
  then show ?case
    by (simp add: up v_def)
qed

lemma evaluate_vec_supported:
  assumes "wf_Polynomial p" "m_N p \<le> kMaxN" "int (length result) \<le> m_N p"
  shows "evaluate_vec base_coefficients p t result =
     Inr (map (\<lambda>k. derivative_value (m_coefficients p) k t) [0..<length result])"
  using evaluate_vec_outer_supported[OF assms(1,2) assms(3), of result 0 t] assms(3)
  by (simp add: evaluate_vec_def)

lemma evaluate_vec_unsupported:
  assumes "wf_Polynomial p" "\<not> m_N p \<le> kMaxN" "int (length result) \<le> m_N p" "result \<noteq> []"
  shows "evaluate_vec base_coefficients p t result = Inl EigenAssert"
proof -
  have lt: "0 < int (length result)" using assms(4) by simp
  have "0 < m_N p" using lt assms(3) by linarith
  then have "evaluate base_coefficients p t 0 = Inl EigenAssert"
    using assms(1,2) by (intro evaluate_unsupported) auto
  then show ?thesis
    using assms(3) by (simp add: evaluate_vec_def evaluate_vec_outer_step[OF lt assms(3)])
qed

text \<open>
  C5. For every polynomial of order \<open>N\<close>, every time \<open>t\<close> and every requested slot count
  \<open>M \<le> N\<close>, the vector form \<open>evaluate(t, result)\<close> fills \<open>result[i]\<close> with the value the scalar
  form \<open>evaluate(t, i)\<close> returns, for every \<open>i\<close> in \<open>[0, M)\<close>: the two forms agree on every
  slot, also where both stop on the same fatal check, and for \<open>N \<le> kMaxN\<close> the vector form
  does return. It fails when \<open>M > N\<close>.
\<close>

theorem evaluate_vec_refines_evaluate:
  assumes "wf_Polynomial p"
  shows "(int (length result) \<le> m_N p \<longrightarrow>
           (\<forall>i < length result.
              case evaluate_vec base_coefficients p t result of
                Inl e \<Rightarrow> evaluate base_coefficients p t (int i) = Inl e
              | Inr r \<Rightarrow> length r = length result \<and> evaluate base_coefficients p t (int i) = Inr (r ! i)))
       \<and> (int (length result) \<le> m_N p \<and> m_N p \<le> kMaxN \<longrightarrow>
           (\<exists>r. evaluate_vec base_coefficients p t result = Inr r))
       \<and> (int (length result) > m_N p \<longrightarrow> evaluate_vec base_coefficients p t result = Inl CheckFailed)"
proof (intro conjI impI allI)
  fix i
  assume le: "int (length result) \<le> m_N p" and i: "i < length result"
  show "case evaluate_vec base_coefficients p t result of
          Inl e \<Rightarrow> evaluate base_coefficients p t (int i) = Inl e
        | Inr r \<Rightarrow> length r = length result \<and> evaluate base_coefficients p t (int i) = Inr (r ! i)"
  proof (cases "m_N p \<le> kMaxN")
    case True
    have "evaluate base_coefficients p t (int i) = Inr (derivative_value (m_coefficients p) i t)"
      using evaluate_value[OF assms True, of "int i" t] le i by simp
    then show ?thesis
      using i by (simp add: evaluate_vec_supported[OF assms True le])
  next
    case False
    have "result \<noteq> []" using i by auto
    then have "evaluate_vec base_coefficients p t result = Inl EigenAssert"
      using assms False le by (intro evaluate_vec_unsupported)
    moreover have "evaluate base_coefficients p t (int i) = Inl EigenAssert"
      using assms False le i by (intro evaluate_unsupported) auto
    ultimately show ?thesis by simp
  qed
next
  assume "int (length result) \<le> m_N p \<and> m_N p \<le> kMaxN"
  then show "\<exists>r. evaluate_vec base_coefficients p t result = Inr r"
    using evaluate_vec_supported[OF assms, of result t] by simp
next
  assume "m_N p < int (length result)"
  then show "evaluate_vec base_coefficients p t result = Inl CheckFailed"
    by (simp add: evaluate_vec_def)
qed

theorem evaluate_vec_refines_evaluate_witness:
  "wf_Polynomial \<lparr>m_N = 3, m_coefficients = [1, 2, 3]\<rparr>
   \<and> int (length [0, 0 :: real]) \<le> m_N \<lparr>m_N = 3, m_coefficients = [1, 2, 3]\<rparr>
   \<and> m_N \<lparr>m_N = 3, m_coefficients = [1, 2, 3]\<rparr> \<le> kMaxN
   \<and> evaluate_vec base_coefficients \<lparr>m_N = 3, m_coefficients = [1, 2, 3]\<rparr> 2 [0, 0] = Inr [17, 14]
   \<and> evaluate base_coefficients \<lparr>m_N = 3, m_coefficients = [1, 2, 3]\<rparr> 2 0 = Inr 17
   \<and> evaluate base_coefficients \<lparr>m_N = 3, m_coefficients = [1, 2, 3]\<rparr> 2 1 = Inr 14
   \<and> int (length [0, 0, 0, 0 :: real]) > m_N \<lparr>m_N = 3, m_coefficients = [1, 2, 3]\<rparr>
   \<and> evaluate_vec base_coefficients \<lparr>m_N = 3, m_coefficients = [1, 2, 3]\<rparr> 2 [0, 0, 0, 0] = Inl CheckFailed"
proof -
  define P where "P = \<lparr>m_N = 3, m_coefficients = [1, 2, 3]\<rparr>"
  have w: "wf_Polynomial P" and k: "m_N P \<le> kMaxN" and n: "m_N P = 3"
    by (simp_all add: P_def wf_Polynomial_def kMaxN_def)
  have s: "{0..<3} = {0, 1, 2::nat}" "{Suc 0..<3} = {1, 2::nat}" by auto
  have e0: "evaluate base_coefficients P 2 0 = Inr 17"
    using evaluate_value[OF w k, of 0 2] by (simp add: P_def derivative_value_def s fact_numeral)
  have e1: "evaluate base_coefficients P 2 1 = Inr 14"
    using evaluate_value[OF w k, of 1 2] by (simp add: P_def derivative_value_def s fact_numeral)
  note t = evaluate_vec_refines_evaluate[OF w, of "[0, 0]" 2]
  from t obtain r where r: "evaluate_vec base_coefficients P 2 [0, 0] = Inr r" using n k by auto
  from t r have "length r = 2 \<and> evaluate base_coefficients P 2 (int 0) = Inr (r ! 0)"
    using n by (auto dest!: spec[where x=0])
  moreover from t r have "evaluate base_coefficients P 2 (int 1) = Inr (r ! 1)"
    using n by (auto dest!: spec[where x=1])
  ultimately have "length r = 2" "r ! 0 = 17" "r ! 1 = 14" using e0 e1 by simp_all
  then have "r = [17, 14]"
    by (cases r; cases "tl r") auto
  with r have v: "evaluate_vec base_coefficients P 2 [0, 0] = Inr [17, 14]" by simp
  have f: "evaluate_vec base_coefficients P 2 [0, 0, 0, 0] = Inl CheckFailed"
    using evaluate_vec_refines_evaluate[OF w, of "[0, 0, 0, 0]" 2] n by simp
  show ?thesis
    using w k n v e0 e1 f by (simp add: P_def)
qed


section \<open>Basis row scaled by powers of the time\<close>

lemma baseCoeffs_loop_supported:
  assumes "0 \<le> d" "N \<le> kMaxN" "int (length coeffs) = N" "d < j" "j \<le> N"
    "t_power = t ^ nat (j - d)"
  shows "baseCoeffs_loop base_coefficients N d t j t_power coeffs =
     Inr (take (nat j) coeffs
          @ map (\<lambda>k. base_entry (nat d) k * t ^ (k - nat d)) [nat j..<nat N])"
  using assms(3-6)
proof (induction "nat (N - j)" arbitrary: j t_power coeffs)
  case 0
  then have "j = N" by simp
  then show ?case
    using 0 by (subst baseCoeffs_loop.simps) simp
next
  case (Suc m)
  then have lt: "j < N" by simp
  define v where "v = base_entry (nat d) (nat j) * t ^ (nat j - nat d)"
  have b: "coeff2 base_coefficients d j = Inr (base_entry (nat d) (nat j))"
    using assms(1,2) Suc.prems lt by (intro coeff2_base) simp_all
  have e: "nat (j - d) = nat j - nat d" using assms(1) Suc.prems by simp
  have as: "assign_coeff coeffs j (base_entry (nat d) (nat j) * t_power) = Inr (coeffs[nat j := v])"
    using Suc.prems lt assms(1) by (simp add: assign_coeff_def v_def e)
  have "nat (j + 1 - d) = Suc (nat (j - d))" using Suc.prems by simp
  then have tp: "t_power * t = t ^ nat (j + 1 - d)"
    using Suc.prems by simp
  have rec: "baseCoeffs_loop base_coefficients N d t (j + 1) (t_power * t) (coeffs[nat j := v]) =
      Inr (take (nat (j + 1)) (coeffs[nat j := v])
        @ map (\<lambda>k. base_entry (nat d) k * t ^ (k - nat d)) [nat (j + 1)..<nat N])"
    using Suc.hyps(2) Suc.prems lt tp by (intro Suc.hyps(1)) simp_all
  have j1: "nat (j + 1) = Suc (nat j)" using Suc.prems assms(1) by simp
  have nj: "nat j < length coeffs" "nat j < nat N" using Suc.prems lt assms(1) by simp_all
  have tk: "take (Suc (nat j)) (coeffs[nat j := v]) = take (nat j) coeffs @ [v]"
    using nj by (simp add: take_Suc_conv_app_nth)
  have up: "[nat j..<nat N] = nat j # [Suc (nat j)..<nat N]"
    using nj by (simp add: upt_conv_Cons)
  have "baseCoeffs_loop base_coefficients N d t j t_power coeffs =
      Inr (take (nat j) coeffs
        @ v # map (\<lambda>k. base_entry (nat d) k * t ^ (k - nat d)) [Suc (nat j)..<nat N])"
    by (subst baseCoeffs_loop.simps) (simp add: lt b as rec j1 tk)
  then show ?case
    by (simp add: up v_def)
qed

lemma baseCoeffsWithTime_supported:
  assumes "0 \<le> d" "d < N" "N \<le> kMaxN"
  shows "baseCoeffsWithTime base_coefficients N d t =
     Inr (map (\<lambda>j. if \<bar>t\<bar> < epsilon then (if j = nat d then base_entry (nat d) (nat d) else 0)
                    else (if nat d \<le> j then base_entry (nat d) j * t ^ (j - nat d) else 0))
            [0..<nat N])"
proof -
  define n where "n = nat N"
  define k where "k = nat d"
  define c1 where "c1 = (replicate n (0::real))[k := base_entry k k]"
  have n: "N = int n" "d = int k" "k < n" using assms by (simp_all add: n_def k_def)
  have z: "zero_vector N = Inr (replicate n 0)" by (simp add: zero_vector_def n)
  have b: "coeff2 base_coefficients d d = Inr (base_entry k k)"
    using assms by (simp add: coeff2_base k_def)
  have a: "assign_coeff (replicate n 0) d (base_entry k k) = Inr c1"
    using n by (simp add: assign_coeff_def c1_def)
  have into: "baseCoeffsWithTime base_coefficients N d t =
      (if \<bar>t\<bar> < epsilon then Inr c1 else baseCoeffs_loop base_coefficients N d t (d + 1) t c1)"
    using assms by (simp add: baseCoeffsWithTime_def baseCoeffsWithTime_into_def bind_e_def z b a)
  show ?thesis
  proof (cases "\<bar>t\<bar> < epsilon")
    case True
    have "c1 = map (\<lambda>j. if j = k then base_entry k k else 0) [0..<n]"
      using n by (intro nth_equalityI) (auto simp add: c1_def)
    then show ?thesis using True by (simp add: into n_def k_def)
  next
    case False
    have "baseCoeffs_loop base_coefficients N d t (d + 1) t c1 =
       Inr (take (nat (d + 1)) c1
            @ map (\<lambda>j. base_entry (nat d) j * t ^ (j - nat d)) [nat (d + 1)..<nat N])"
      using assms n by (intro baseCoeffs_loop_supported) (simp_all add: c1_def)
    moreover have d1: "nat (d + 1) = Suc k" "nat d = k" "nat N = n" using n by simp_all
    have "take (Suc k) c1 @ map (\<lambda>j. base_entry k j * t ^ (j - k)) [Suc k..<n]
        = map (\<lambda>j. if k \<le> j then base_entry k j * t ^ (j - k) else 0) [0..<n]"
    proof (intro nth_equalityI allI impI)
      show "length (take (Suc k) c1 @ map (\<lambda>j. base_entry k j * t ^ (j - k)) [Suc k..<n])
          = length (map (\<lambda>j. if k \<le> j then base_entry k j * t ^ (j - k) else 0) [0..<n])"
        using n by (simp add: c1_def)
    next
      fix i
      assume "i < length (take (Suc k) c1 @ map (\<lambda>j. base_entry k j * t ^ (j - k)) [Suc k..<n])"
      then have i: "i < n" using n by (simp add: c1_def)
      consider "i < k" | "i = k" | "k < i" by linarith
      then show "(take (Suc k) c1 @ map (\<lambda>j. base_entry k j * t ^ (j - k)) [Suc k..<n]) ! i
          = map (\<lambda>j. if k \<le> j then base_entry k j * t ^ (j - k) else 0) [0..<n] ! i"
        using i n by cases (simp_all add: c1_def nth_append)
    qed
    then have "take (nat (d + 1)) c1
            @ map (\<lambda>j. base_entry (nat d) j * t ^ (j - nat d)) [nat (d + 1)..<nat N]
        = map (\<lambda>j. if k \<le> j then base_entry k j * t ^ (j - k) else 0) [0..<n]"
      by (simp only: d1)
    ultimately show ?thesis using False by (simp add: into n_def k_def)
  qed
qed


text \<open>
  C8 (amended). For every \<open>N \<le> kMaxN\<close>, every derivative \<open>d\<close> with \<open>0 \<le> d < N\<close> and every
  time \<open>t\<close>: when \<open>|t|\<close> is below machine epsilon, \<open>baseCoeffsWithTime(N, d, t)\<close> returns a
  sequence of length \<open>N\<close> with exactly one nonzero entry, at index \<open>d\<close>, equal to
  \<open>B[d][d]\<close>; otherwise it returns the sequence with entry \<open>j\<close> equal to
  \<open>B[d][j] \<cdot> t\<^sup>j\<^sup>-\<^sup>d\<close> for \<open>j \<ge> d\<close> and \<open>0\<close> for \<open>j < d\<close>.
\<close>

theorem baseCoeffsWithTime_spec:
  assumes "0 \<le> d" "d < N" "N \<le> kMaxN"
  shows "baseCoeffsWithTime base_coefficients N d t =
     Inr (map (\<lambda>j. if \<bar>t\<bar> < epsilon
                    then (if j = nat d then base_coefficients ! nat d ! nat d else 0)
                    else (if nat d \<le> j then base_coefficients ! nat d ! j * t ^ (j - nat d)
                          else 0))
            [0..<nat N])
     \<and> base_coefficients ! nat d ! nat d \<noteq> 0"
proof -
  have k: "nat d < nat kMaxN" "nat N \<le> nat kMaxN" using assms by simp_all
  have "base_coefficients ! nat d ! nat d = fact (nat d)"
    using k by (simp add: base_nth base_entry_fact)
  then have nz: "base_coefficients ! nat d ! nat d \<noteq> 0" by simp
  have "map (\<lambda>j. if \<bar>t\<bar> < epsilon then (if j = nat d then base_entry (nat d) (nat d) else 0)
                    else (if nat d \<le> j then base_entry (nat d) j * t ^ (j - nat d) else 0))
            [0..<nat N]
      = map (\<lambda>j. if \<bar>t\<bar> < epsilon
                    then (if j = nat d then base_coefficients ! nat d ! nat d else 0)
                    else (if nat d \<le> j then base_coefficients ! nat d ! j * t ^ (j - nat d)
                          else 0))
            [0..<nat N]"
    using k by (intro map_cong) (simp_all add: base_nth)
  then show ?thesis
    using baseCoeffsWithTime_supported[OF assms, of t] nz by simp
qed

theorem baseCoeffsWithTime_spec_witness:
  "(0::int) \<le> 1 \<and> (1::int) < 3 \<and> (3::int) \<le> kMaxN
   \<and> baseCoeffsWithTime base_coefficients 3 1 2 = Inr [0, 1, 4]
   \<and> baseCoeffsWithTime base_coefficients 3 1 0 = Inr [0, 1, 0]"
proof -
  have u: "[0..<3] = [0, 1, 2]" by (simp add: upt_rec)
  have b: "base_coefficients ! Suc 0 ! Suc 0 = 1" "base_coefficients ! Suc 0 ! 2 = 2"
    by (simp_all add: base_nth kMaxN_def base_entry_def eval_nat_numeral)
  have e: "\<not> (2::real) < epsilon" "(0::real) < epsilon" by (simp_all add: epsilon_def)
  show ?thesis
    using baseCoeffsWithTime_spec[of 1 3 2] baseCoeffsWithTime_spec[of 1 3 0]
    by (simp add: kMaxN_def u b e)
qed

text \<open>
  Without the bound on \<open>N\<close> the property fails: with \<open>N = 13\<close> and \<open>d = 12\<close> the first write reads the
  table at row and column 12 of 12.
\<close>

theorem baseCoeffsWithTime_order_13_counterexample:
  "baseCoeffsWithTime base_coefficients 13 12 0 = Inl EigenAssert"
  by (simp add: baseCoeffsWithTime_def baseCoeffsWithTime_into_def zero_vector_def coeff2_def
      rows_base cols_base kMaxN_def bind_e_def)


section \<open>Evaluation beyond the order\<close>

text \<open>
  C7. For every polynomial of order \<open>N\<close>, every time \<open>t\<close> and every derivative index
  \<open>d \<ge> N\<close>, the scalar \<open>evaluate(t, d)\<close> returns exactly \<open>0.0\<close>: a value, not an error,
  whatever the table holds.
\<close>

theorem evaluate_beyond_order:
  "derivative \<ge> m_N p \<Longrightarrow> evaluate tbl p t derivative = Inr 0"
  by (simp add: evaluate_def)

theorem evaluate_beyond_order_witness:
  "(3::int) \<ge> m_N \<lparr>m_N = 3, m_coefficients = [1, 2, 3]\<rparr>
   \<and> evaluate base_coefficients \<lparr>m_N = 3, m_coefficients = [1, 2, 3]\<rparr> 5 3 = Inr 0"
  using evaluate_beyond_order
    [where p = "\<lparr>m_N = 3, m_coefficients = [1, 2, 3]\<rparr>" and derivative = 3 and t = 5
       and tbl = base_coefficients]
  by simp

section \<open>Results of the extremum search\<close>

lemma evaluate_all_length:
  "evaluate_all base_coefficients p order_to_evaluate ts = Inr vs \<Longrightarrow> length vs = length ts"
  by (induction ts arbitrary: vs) (auto split: sum.splits)

lemma evaluate_all_supported:
  assumes "wf_Polynomial p" "m_N p \<le> kMaxN" "0 \<le> d" "d < m_N p"
  shows "evaluate_all base_coefficients p d ts = Inr (map (derivative_value (m_coefficients p) (nat d)) ts)"
  by (induction ts) (simp_all add: evaluate_value[OF assms])

lemma first_at_unique: "first_at vs x i \<Longrightarrow> first_at vs x j \<Longrightarrow> i = j"
proof (rule ccontr)
  assume a: "first_at vs x i" "first_at vs x j" "i \<noteq> j"
  then consider "i < j" | "j < i" by linarith
  then show False
  proof cases
    case 1
    then have "vs ! i \<in> set (take j vs)"
      using a by (auto simp add: first_at_def in_set_conv_nth intro!: exI[of _ i])
    then show False using a by (simp add: first_at_def)
  next
    case 2
    then have "vs ! j \<in> set (take i vs)"
      using a by (auto simp add: first_at_def in_set_conv_nth intro!: exI[of _ j])
    then show False using a by (simp add: first_at_def)
  qed
qed

lemma update_min_max_fields:
  "min_val (update_min_max acc (t, v)) = (if v < min_val acc then v else min_val acc)"
  "t_min (update_min_max acc (t, v)) = (if v < min_val acc then t else t_min acc)"
  "max_val (update_min_max acc (t, v)) = (if v > max_val acc then v else max_val acc)"
  "t_max (update_min_max acc (t, v)) = (if v > max_val acc then t else t_max acc)"
  by (simp_all add: update_min_max_def Let_def)

lemma tracks_iff:
  "tracks ts vs acc \<longleftrightarrow>
     min_val acc = Min (set vs) \<and> max_val acc = Max (set vs)
     \<and> (\<exists>i. first_at vs (Min (set vs)) i \<and> t_min acc = ts ! i)
     \<and> (\<exists>i. first_at vs (Max (set vs)) i \<and> t_max acc = ts ! i)"
  unfolding tracks_def by (auto simp add: first_at_def)

lemma first_at_append_old:
  "first_at vs x i \<Longrightarrow> first_at (vs @ [v]) x i"
  by (auto simp add: first_at_def nth_append)

lemma first_at_append_new:
  "x \<notin> set vs \<Longrightarrow> first_at (vs @ [x]) x (length vs)"
  by (simp add: first_at_def)

lemma tracks_step:
  assumes "tracks ts vs acc" "vs \<noteq> []" "length ts = length vs"
  shows "tracks (ts @ [t]) (vs @ [v]) (update_min_max acc (t, v))"
proof -
  have fin: "finite (set vs)" "set vs \<noteq> {}" using assms(2) by simp_all
  have mn: "Min (set (vs @ [v])) = min v (Min (set vs))"
    and mx: "Max (set (vs @ [v])) = max v (Max (set vs))"
    using fin by simp_all
  from assms(1) obtain i j where
    i: "first_at vs (Min (set vs)) i" "t_min acc = ts ! i" and
    j: "first_at vs (Max (set vs)) j" "t_max acc = ts ! j" and
    m: "min_val acc = Min (set vs)" "max_val acc = Max (set vs)"
    by (auto simp add: tracks_iff)
  have il: "i < length ts" "j < length ts" using i j assms(3) by (simp_all add: first_at_def)
  have nt: "(ts @ [t]) ! length vs = t" using assms(3) by (metis nth_append_length)
  have lo: "\<exists>k. first_at (vs @ [v]) (min v (Min (set vs))) k
      \<and> t_min (update_min_max acc (t, v)) = (ts @ [t]) ! k"
  proof (cases "v < Min (set vs)")
    case True
    then have "v \<notin> set vs" using fin Min_le[of "set vs" v] by auto
    then have "first_at (vs @ [v]) v (length vs)" by (rule first_at_append_new)
    then show ?thesis
      using True m nt by (auto simp add: update_min_max_fields min_def intro!: exI[of _ "length vs"])
  next
    case False
    then show ?thesis
      using first_at_append_old[OF i(1), of v] i(2) il m
      by (auto simp add: update_min_max_fields min_def nth_append intro!: exI[of _ i])
  qed
  have hi: "\<exists>k. first_at (vs @ [v]) (max v (Max (set vs))) k
      \<and> t_max (update_min_max acc (t, v)) = (ts @ [t]) ! k"
  proof (cases "v > Max (set vs)")
    case True
    then have "v \<notin> set vs" using fin Max_ge[of "set vs" v] by auto
    then have "first_at (vs @ [v]) v (length vs)" by (rule first_at_append_new)
    then show ?thesis
      using True m nt by (auto simp add: update_min_max_fields max_def intro!: exI[of _ "length vs"])
  next
    case False
    then show ?thesis
      using first_at_append_old[OF j(1), of v] j(2) il m
      by (auto simp add: update_min_max_fields max_def nth_append intro!: exI[of _ j])
  qed
  have "min_val (update_min_max acc (t, v)) = min v (Min (set vs))"
    "max_val (update_min_max acc (t, v)) = max v (Max (set vs))"
    using m by (auto simp add: update_min_max_fields min_def max_def)
  then show ?thesis
    unfolding tracks_iff mn mx using lo hi by simp
qed

lemma select_min_max_tracks:
  assumes "length ts = length vs"
  shows "tracks pt pv acc \<Longrightarrow> pv \<noteq> [] \<Longrightarrow> length pt = length pv \<Longrightarrow>
     tracks (pt @ ts) (pv @ vs) (select_min_max acc (zip ts vs))"
  using assms
proof (induction ts vs arbitrary: pt pv acc rule: list_induct2)
  case Nil
  then show ?case by simp
next
  case (Cons t ts v vs)
  have "tracks (pt @ [t]) (pv @ [v]) (update_min_max acc (t, v))"
    using Cons.prems by (intro tracks_step)
  then have "tracks ((pt @ [t]) @ ts) ((pv @ [v]) @ vs)
      (select_min_max (update_min_max acc (t, v)) (zip ts vs))"
    using Cons.prems by (intro Cons.IH) simp_all
  then show ?case by simp
qed

lemma tracks_single: "tracks [t] [v] \<lparr>t_min = t, t_max = t, min_val = v, max_val = v\<rparr>"
  by (auto simp add: tracks_iff first_at_def)


lemma findMinMax_roots_tracks:
  assumes "t_1 \<le> t_2" "0 \<le> order_to_evaluate" "order_to_evaluate < m_N p"
    and ev: "evaluate_all base_coefficients p order_to_evaluate (candidates tolerance t_1 t_2 rs) = Inr vs"
  shows "\<exists>r. findMinMax_roots base_coefficients tolerance p t_1 t_2 order_to_evaluate rs = Inr (Some r)
       \<and> tracks (candidates tolerance t_1 t_2 rs) vs r"
proof -
  define rest where "rest = t_2 # map Re (filter (admissible tolerance t_1 t_2) rs)"
  have c: "candidates tolerance t_1 t_2 rs = t_1 # rest"
    by (simp add: candidates_def rest_def)
  have "length vs = length (t_1 # rest)"
    using evaluate_all_length[OF ev] c by simp
  then obtain v vrest where vs: "vs = v # vrest" and l: "length rest = length vrest"
    by (cases vs) simp_all
  define r where
    "r = select_min_max \<lparr>t_min = t_1, t_max = t_1, min_val = v, max_val = v\<rparr> (zip rest vrest)"
  have "tracks ([t_1] @ rest) ([v] @ vrest) r"
    unfolding r_def using l by (intro select_min_max_tracks tracks_single) simp_all
  then have t: "tracks (candidates tolerance t_1 t_2 rs) vs r" by (simp add: c vs)
  have "findMinMax_roots base_coefficients tolerance p t_1 t_2 order_to_evaluate rs = Inr (Some r)"
    using assms(1-3) ev by (simp add: findMinMax_roots_def c[symmetric]) (simp add: c vs r_def)
  with t show ?thesis by blast
qed

lemma findMinMax_roots_failure:
  "findMinMax_roots base_coefficients tolerance p t_1 t_2 order_to_evaluate rs = Inr None
   \<longleftrightarrow> t_1 > t_2 \<or> order_to_evaluate < 0"
proof (cases "t_1 \<le> t_2 \<and> 0 \<le> order_to_evaluate \<and> order_to_evaluate < m_N p")
  case False
  then show ?thesis by (auto simp add: findMinMax_roots_def)
next
  case True
  show ?thesis
  proof (cases "evaluate_all base_coefficients p order_to_evaluate (candidates tolerance t_1 t_2 rs)")
    case (Inl e)
    then show ?thesis using True by (simp add: findMinMax_roots_def)
  next
    case (Inr vs)
    then show ?thesis using findMinMax_roots_tracks[of t_1 t_2 order_to_evaluate p tolerance rs vs] True
      by auto
  qed
qed

lemma findMinMax_failure:
  "findMinMax base_coefficients solver tolerance p t_1 t_2 order_to_evaluate = Inr None
   \<longleftrightarrow> t_1 > t_2 \<or> order_to_evaluate < 0"
  using findMinMax_roots_failure[of tolerance p t_1 t_2 order_to_evaluate]
  by (auto simp add: findMinMax_def bind_e_def split: sum.splits)

lemma candidates_set:
  "set (candidates tolerance t_1 t_2 rs)
     = {t_1, t_2} \<union> Re ` {z \<in> set rs. admissible tolerance t_1 t_2 z}"
  by (auto simp add: candidates_def)

lemma cube_bounds:
  fixes c :: real
  assumes "- 1 \<le> c" "c \<le> 1"
  shows "- 1 \<le> c ^ 3" "c ^ 3 \<le> 1"
proof -
  have "(- 1) ^ 3 \<le> c ^ 3" using assms(1) by (intro power_mono_odd) simp_all
  then show "- 1 \<le> c ^ 3" by simp
  have "c ^ 3 \<le> 1 ^ 3" using assms(2) by (intro power_mono_odd) simp_all
  then show "c ^ 3 \<le> 1" by simp
qed

lemma cubic_value: "derivative_value [0, 0, 0, 1] 0 t = t ^ 3"
proof -
  have s: "{0..<4} = {0, 1, 2, 3::nat}" by auto
  show ?thesis by (simp add: derivative_value_def s power3_eq_cube)
qed

lemma findMinMax_roots_cubic:
  "findMinMax_roots base_coefficients tolerance \<lparr>m_N = 4, m_coefficients = [0, 0, 0, 1]\<rparr> (- 1) 1 0 rs
     = Inr (Some \<lparr>t_min = - 1, t_max = 1, min_val = - 1, max_val = 1\<rparr>)"
proof -
  define p where "p = \<lparr>m_N = 4, m_coefficients = [0, 0, 0, 1]\<rparr>"
  define cands where "cands = candidates tolerance (- 1) 1 rs"
  define vs where "vs = map (\<lambda>t. t ^ 3) cands"
  have w: "wf_Polynomial p" "m_N p \<le> kMaxN" "(0::int) < m_N p"
    by (simp_all add: p_def wf_Polynomial_def kMaxN_def)
  have ev: "evaluate_all base_coefficients p 0 cands = Inr vs"
    using evaluate_all_supported[OF w(1,2), of 0 cands] w(3)
    by (simp add: vs_def p_def cubic_value[abs_def])
  obtain rest where c: "cands = - 1 # 1 # rest"
    by (simp add: cands_def candidates_def)
  have rng: "- 1 \<le> t \<and> t \<le> 1" if "t \<in> set cands" for t
    using that by (auto simp add: cands_def candidates_def admissible_def)
  have bnd: "- 1 \<le> v \<and> v \<le> 1" if "v \<in> set vs" for v
    using that rng cube_bounds by (auto simp add: vs_def)
  have v: "vs = - 1 # 1 # map (\<lambda>t. t ^ 3) rest" by (simp add: vs_def c)
  have mn: "Min (set vs) = - 1"
    using bnd by (intro Min_eqI) (simp_all add: v)
  have mx: "Max (set vs) = 1"
    using bnd by (intro Max_eqI) (simp_all add: v)
  have f0: "first_at vs (- 1) 0" by (simp add: first_at_def v)
  have f1: "first_at vs 1 1" by (simp add: first_at_def v)
  from findMinMax_roots_tracks[of "- 1" 1 0 p tolerance rs vs] ev w(3)
  obtain r where r: "findMinMax_roots base_coefficients tolerance p (- 1) 1 0 rs = Inr (Some r)"
    and t: "tracks cands vs r"
    by (auto simp add: cands_def)
  from t obtain i j where
    i: "first_at vs (- 1) i" "t_min r = cands ! i" and
    j: "first_at vs 1 j" "t_max r = cands ! j" and
    m: "min_val r = - 1" "max_val r = 1"
    by (auto simp add: tracks_iff mn mx)
  have "i = 0" using first_at_unique[OF i(1) f0] .
  moreover have "j = 1" using first_at_unique[OF j(1) f1] .
  ultimately have "t_min r = - 1" "t_max r = 1" using i(2) j(2) by (simp_all add: c)
  then have "r = \<lparr>t_min = - 1, t_max = 1, min_val = - 1, max_val = 1\<rparr>"
    using m by (cases r) simp
  then show ?thesis using r by (simp add: p_def)
qed

lemma findMinMax_via_roots:
  assumes "t_1 \<le> t_2" "0 \<le> order_to_evaluate" "order_to_evaluate < m_N p"
    "getCoefficients base_coefficients p (order_to_evaluate + 1) = Inr cs"
  shows "findMinMax base_coefficients solver tolerance p t_1 t_2 order_to_evaluate
     = findMinMax_roots base_coefficients tolerance p t_1 t_2 order_to_evaluate (solver cs)"
  using assms by (simp add: findMinMax_def bind_e_def)

lemma findMinMax_roots_supported:
  assumes "wf_Polynomial p" "m_N p \<le> kMaxN" "t_1 \<le> t_2" "0 \<le> d" "d < m_N p"
  shows "\<exists>r i j. findMinMax_roots base_coefficients tolerance p t_1 t_2 d rs = Inr (Some r)
     \<and> min_val r = Min (set (map (derivative_value (m_coefficients p) (nat d))
                               (candidates tolerance t_1 t_2 rs)))
     \<and> max_val r = Max (set (map (derivative_value (m_coefficients p) (nat d))
                               (candidates tolerance t_1 t_2 rs)))
     \<and> first_at (map (derivative_value (m_coefficients p) (nat d))
                   (candidates tolerance t_1 t_2 rs)) (min_val r) i
     \<and> t_min r = candidates tolerance t_1 t_2 rs ! i
     \<and> first_at (map (derivative_value (m_coefficients p) (nat d))
                   (candidates tolerance t_1 t_2 rs)) (max_val r) j
     \<and> t_max r = candidates tolerance t_1 t_2 rs ! j"
proof -
  define vs where "vs = map (derivative_value (m_coefficients p) (nat d))
                               (candidates tolerance t_1 t_2 rs)"
  have "evaluate_all base_coefficients p d (candidates tolerance t_1 t_2 rs) = Inr vs"
    unfolding vs_def using assms by (intro evaluate_all_supported)
  from findMinMax_roots_tracks[OF assms(3-5) this]
  obtain r where "findMinMax_roots base_coefficients tolerance p t_1 t_2 d rs = Inr (Some r)"
    "tracks (candidates tolerance t_1 t_2 rs) vs r" by blast
  then show ?thesis
    unfolding vs_def[symmetric] by (auto simp add: tracks_iff)
qed

lemma findMinMax_computes_roots:
  assumes "wf_Polynomial p" "m_N p \<le> kMaxN" "t_1 \<le> t_2" "0 \<le> d" "d < m_N p"
    "d + 1 < kMaxN"
  shows "\<exists>cs. getCoefficients base_coefficients p (d + 1) = Inr cs
     \<and> findMinMax base_coefficients solver tolerance p t_1 t_2 d
         = findMinMax_roots base_coefficients tolerance p t_1 t_2 d (solver cs)"
proof -
  obtain cs where cs: "getCoefficients base_coefficients p (d + 1) = Inr cs"
    using getCoefficients_derivative[OF assms(1,2), of "d + 1"] assms(4-6) by auto
  from findMinMax_via_roots[OF assms(3-5) cs] cs show ?thesis by blast
qed

lemma findMinMax_roots_returns:
  assumes "wf_Polynomial p" "m_N p \<le> kMaxN" "t_1 \<le> t_2" "0 \<le> d"
  shows "\<exists>r. findMinMax_roots base_coefficients tolerance p t_1 t_2 d rs = Inr (Some r)"
proof (cases "d < m_N p")
  case False
  then show ?thesis using assms by (simp add: findMinMax_roots_def)
next
  case True
  from findMinMax_roots_supported[OF assms True] show ?thesis by blast
qed

lemma findMinMax_returns:
  assumes "wf_Polynomial p" "m_N p \<le> kMaxN" "t_1 \<le> t_2" "0 \<le> d"
    "d + 1 < kMaxN \<or> d \<ge> m_N p"
  shows "\<exists>r. findMinMax base_coefficients solver tolerance p t_1 t_2 d = Inr (Some r)"
proof (cases "d < m_N p")
  case False
  then show ?thesis using assms by (simp add: findMinMax_def)
next
  case True
  then have "d + 1 < kMaxN" using assms(5) by simp
  from findMinMax_computes_roots[OF assms(1-4) True this]
  obtain cs where "findMinMax base_coefficients solver tolerance p t_1 t_2 d
         = findMinMax_roots base_coefficients tolerance p t_1 t_2 d (solver cs)" by blast
  then show ?thesis
    using findMinMax_roots_returns[OF assms(1-4), of tolerance "solver cs"] by simp
qed

text \<open>
  C6 (amended). \<open>findMinMax\<close> returns the structured, non-fatal failure exactly when
  \<open>t1 > t2\<close> or the requested order is negative, in both overloads; when the order is at
  least \<open>N\<close> and the arguments are valid it returns the trivial success of the constant
  zero function. For every polynomial of order \<open>N \<le> kMaxN\<close>, every \<open>t1 \<le> t2\<close> and every
  \<open>0 \<le> order\<close> it does not fail: the overload that is given the roots returns a result,
  and so does the overload that computes them for \<open>order + 1 < kMaxN\<close> or \<open>order \<ge> N\<close>.
\<close>

theorem findMinMax_failure_iff:
  "(findMinMax_roots base_coefficients tolerance p t_1 t_2 order_to_evaluate rs = Inr None
      \<longleftrightarrow> t_1 > t_2 \<or> order_to_evaluate < 0)
   \<and> (findMinMax base_coefficients solver tolerance p t_1 t_2 order_to_evaluate = Inr None
      \<longleftrightarrow> t_1 > t_2 \<or> order_to_evaluate < 0)
   \<and> (t_1 \<le> t_2 \<and> 0 \<le> order_to_evaluate \<and> order_to_evaluate \<ge> m_N p \<longrightarrow>
        findMinMax_roots base_coefficients tolerance p t_1 t_2 order_to_evaluate rs
          = Inr (Some \<lparr>t_min = t_1, t_max = t_1, min_val = 0, max_val = 0\<rparr>)
        \<and> findMinMax base_coefficients solver tolerance p t_1 t_2 order_to_evaluate
          = Inr (Some \<lparr>t_min = t_1, t_max = t_1, min_val = 0, max_val = 0\<rparr>))
   \<and> (wf_Polynomial p \<and> m_N p \<le> kMaxN \<and> t_1 \<le> t_2 \<and> 0 \<le> order_to_evaluate \<longrightarrow>
        (\<exists>r. findMinMax_roots base_coefficients tolerance p t_1 t_2 order_to_evaluate rs
               = Inr (Some r)))
   \<and> (wf_Polynomial p \<and> m_N p \<le> kMaxN \<and> t_1 \<le> t_2 \<and> 0 \<le> order_to_evaluate
        \<and> (order_to_evaluate + 1 < kMaxN \<or> order_to_evaluate \<ge> m_N p) \<longrightarrow>
        (\<exists>r. findMinMax base_coefficients solver tolerance p t_1 t_2 order_to_evaluate
               = Inr (Some r)))"
proof -
  have c3: "t_1 \<le> t_2 \<and> 0 \<le> order_to_evaluate \<and> order_to_evaluate \<ge> m_N p \<longrightarrow>
        findMinMax_roots base_coefficients tolerance p t_1 t_2 order_to_evaluate rs
          = Inr (Some \<lparr>t_min = t_1, t_max = t_1, min_val = 0, max_val = 0\<rparr>)
        \<and> findMinMax base_coefficients solver tolerance p t_1 t_2 order_to_evaluate
          = Inr (Some \<lparr>t_min = t_1, t_max = t_1, min_val = 0, max_val = 0\<rparr>)"
    by (simp add: findMinMax_roots_def findMinMax_def)
  have c4: "wf_Polynomial p \<and> m_N p \<le> kMaxN \<and> t_1 \<le> t_2 \<and> 0 \<le> order_to_evaluate \<longrightarrow>
        (\<exists>r. findMinMax_roots base_coefficients tolerance p t_1 t_2 order_to_evaluate rs
               = Inr (Some r))"
    using findMinMax_roots_returns by blast
  have c5: "wf_Polynomial p \<and> m_N p \<le> kMaxN \<and> t_1 \<le> t_2 \<and> 0 \<le> order_to_evaluate
        \<and> (order_to_evaluate + 1 < kMaxN \<or> order_to_evaluate \<ge> m_N p) \<longrightarrow>
        (\<exists>r. findMinMax base_coefficients solver tolerance p t_1 t_2 order_to_evaluate
               = Inr (Some r))"
    using findMinMax_returns by blast
  from findMinMax_roots_failure findMinMax_failure c3 c4 c5 show ?thesis by (intro conjI)
qed

theorem findMinMax_failure_iff_witness:
  "findMinMax_roots base_coefficients 0 \<lparr>m_N = 4, m_coefficients = [0, 0, 0, 1]\<rparr> 1 (- 1) 0 []
     = Inr None
   \<and> findMinMax_roots base_coefficients 0 \<lparr>m_N = 4, m_coefficients = [0, 0, 0, 1]\<rparr> (- 1) 1 (- 2) []
     = Inr None
   \<and> findMinMax base_coefficients (\<lambda>cs. []) 0 \<lparr>m_N = 4, m_coefficients = [0, 0, 0, 1]\<rparr> 1 (- 1) 0
     = Inr None
   \<and> (- 1 :: real) \<le> 1 \<and> (0 :: int) \<le> 7 \<and> 7 \<ge> m_N \<lparr>m_N = 4, m_coefficients = [0, 0, 0, 1]\<rparr>
   \<and> findMinMax_roots base_coefficients 0 \<lparr>m_N = 4, m_coefficients = [0, 0, 0, 1]\<rparr> (- 1) 1 7 []
       = Inr (Some \<lparr>t_min = - 1, t_max = - 1, min_val = 0, max_val = 0\<rparr>)
   \<and> wf_Polynomial \<lparr>m_N = 4, m_coefficients = [0, 0, 0, 1]\<rparr>
   \<and> m_N \<lparr>m_N = 4, m_coefficients = [0, 0, 0, 1]\<rparr> \<le> kMaxN
   \<and> (0 :: int) + 1 < kMaxN
   \<and> (\<exists>r. findMinMax_roots base_coefficients 0 \<lparr>m_N = 4, m_coefficients = [0, 0, 0, 1]\<rparr>
              (- 1) 1 0 [] = Inr (Some r))
   \<and> (\<exists>r. findMinMax base_coefficients (\<lambda>cs. []) 0 \<lparr>m_N = 4, m_coefficients = [0, 0, 0, 1]\<rparr>
              (- 1) 1 0 = Inr (Some r))"
proof -
  define P where "P = \<lparr>m_N = 4, m_coefficients = [0, 0, 0, 1]\<rparr>"
  have h: "wf_Polynomial P" "m_N P \<le> kMaxN" "m_N P = 4" "(0 :: int) + 1 < kMaxN"
    by (simp_all add: P_def wf_Polynomial_def kMaxN_def)
  note a = findMinMax_failure_iff[of 0 P 1 "- 1" 0 "[]" "\<lambda>cs. []"]
  note b = findMinMax_failure_iff[of 0 P "- 1" 1 "- 2" "[]" "\<lambda>cs. []"]
  note c = findMinMax_failure_iff[of 0 P "- 1" 1 7 "[]" "\<lambda>cs. []"]
  note d = findMinMax_failure_iff[of 0 P "- 1" 1 0 "[]" "\<lambda>cs. []"]
  from a have a1: "findMinMax_roots base_coefficients 0 P 1 (- 1) 0 [] = Inr None"
    and a2: "findMinMax base_coefficients (\<lambda>cs. []) 0 P 1 (- 1) 0 = Inr None" by simp_all
  from b have b1: "findMinMax_roots base_coefficients 0 P (- 1) 1 (- 2) [] = Inr None" by simp
  from c h have c1: "findMinMax_roots base_coefficients 0 P (- 1) 1 7 []
       = Inr (Some \<lparr>t_min = - 1, t_max = - 1, min_val = 0, max_val = 0\<rparr>)" by simp
  from d h have d2: "\<exists>r. findMinMax_roots base_coefficients 0 P (- 1) 1 0 [] = Inr (Some r)"
    by simp
  from d h have d3: "\<exists>r. findMinMax base_coefficients (\<lambda>cs. []) 0 P (- 1) 1 0 = Inr (Some r)"
    by simp
  show ?thesis
    using h a1 a2 b1 c1 d2 d3 unfolding P_def by simp
qed

text \<open>
  Without the bound on the order a valid call does fail: for order 13 the overload that
  computes the roots stops when it asks for the coefficients of the next derivative.
\<close>

theorem findMinMax_fatal_order_13_counterexample:
  "wf_Polynomial \<lparr>m_N = 13, m_coefficients = [1, 0, 0, 0, 0, 0, 0, 0, 0, 0, 0, 0, 0]\<rparr>
   \<and> (- 1 :: real) \<le> 1 \<and> (0 :: int) \<le> 2
   \<and> getCoefficients base_coefficients
        \<lparr>m_N = 13, m_coefficients = [1, 0, 0, 0, 0, 0, 0, 0, 0, 0, 0, 0, 0]\<rparr> 3
       = Inl EigenAssert
   \<and> evaluate base_coefficients
        \<lparr>m_N = 13, m_coefficients = [1, 0, 0, 0, 0, 0, 0, 0, 0, 0, 0, 0, 0]\<rparr> (- 1) 2
       = Inl EigenAssert
   \<and> findMinMax base_coefficients (\<lambda>cs. []) 0
        \<lparr>m_N = 13, m_coefficients = [1, 0, 0, 0, 0, 0, 0, 0, 0, 0, 0, 0, 0]\<rparr> (- 1) 1 2
       = Inl EigenAssert
   \<and> findMinMax_roots base_coefficients 0
        \<lparr>m_N = 13, m_coefficients = [1, 0, 0, 0, 0, 0, 0, 0, 0, 0, 0, 0, 0]\<rparr> (- 1) 1 2 []
       = Inl EigenAssert"
  by (simp add: wf_Polynomial_def findMinMax_def findMinMax_roots_def candidates_def
      getCoefficients_def evaluate_def zero_vector_def tail_def block_1_def rows_base cols_base
      kMaxN_def bind_e_def)

text \<open>
  C3 (amended). For every polynomial of order \<open>N \<le> kMaxN\<close>, every interval \<open>[t1, t2]\<close> with
  \<open>t1 \<le> t2\<close> and every order with \<open>0 \<le> order < N\<close>, \<open>findMinMax\<close> returns as \<open>min\<close> and \<open>max\<close>
  the smallest and the largest value of the derivative of that order over the candidate
  times \<open>t1\<close>, \<open>t2\<close> and the real parts of the admissible roots, and as \<open>tMin\<close> and \<open>tMax\<close>
  the candidate times where these values occur first. The overload that is given the
  roots does so for whatever roots it is given; the overload that computes them does so,
  for \<open>order + 1 < kMaxN\<close>, on the roots the solver returns for the coefficients of the
  next derivative. On the cubic \<open>t\<^sup>3\<close> over \<open>[-1, 1]\<close> the result is \<open>min = -1\<close> at \<open>t = -1\<close>
  and \<open>max = 1\<close> at \<open>t = 1\<close>, whatever roots are passed in or computed.
\<close>

theorem findMinMax_extrema:
  assumes "wf_Polynomial p" "m_N p \<le> kMaxN" "t_1 \<le> t_2" "0 \<le> d" "d < m_N p"
  shows "(\<forall>rs. \<exists>r i j.
         findMinMax_roots base_coefficients tolerance p t_1 t_2 d rs = Inr (Some r)
       \<and> min_val r = Min (set (map (derivative_value (m_coefficients p) (nat d))
                                 (candidates tolerance t_1 t_2 rs)))
       \<and> max_val r = Max (set (map (derivative_value (m_coefficients p) (nat d))
                                 (candidates tolerance t_1 t_2 rs)))
       \<and> first_at (map (derivative_value (m_coefficients p) (nat d))
                     (candidates tolerance t_1 t_2 rs)) (min_val r) i
       \<and> t_min r = candidates tolerance t_1 t_2 rs ! i
       \<and> first_at (map (derivative_value (m_coefficients p) (nat d))
                     (candidates tolerance t_1 t_2 rs)) (max_val r) j
       \<and> t_max r = candidates tolerance t_1 t_2 rs ! j)
     \<and> (\<forall>t. evaluate base_coefficients p t d
              = Inr (derivative_value (m_coefficients p) (nat d) t))
     \<and> (\<forall>rs. set (candidates tolerance t_1 t_2 rs)
              = {t_1, t_2} \<union> Re ` {z \<in> set rs. admissible tolerance t_1 t_2 z})
     \<and> (d + 1 < kMaxN \<longrightarrow>
          (\<exists>cs r. getCoefficients base_coefficients p (d + 1) = Inr cs
             \<and> findMinMax base_coefficients solver tolerance p t_1 t_2 d = Inr (Some r)
             \<and> findMinMax_roots base_coefficients tolerance p t_1 t_2 d (solver cs)
                 = Inr (Some r)))
     \<and> (\<forall>rs. findMinMax_roots base_coefficients tolerance
                \<lparr>m_N = 4, m_coefficients = [0, 0, 0, 1]\<rparr> (- 1) 1 0 rs
              = Inr (Some \<lparr>t_min = - 1, t_max = 1, min_val = - 1, max_val = 1\<rparr>))
     \<and> findMinMax base_coefficients solver tolerance
           \<lparr>m_N = 4, m_coefficients = [0, 0, 0, 1]\<rparr> (- 1) 1 0
         = Inr (Some \<lparr>t_min = - 1, t_max = 1, min_val = - 1, max_val = 1\<rparr>)"
proof -
  have a: "\<forall>rs. \<exists>r i j.
         findMinMax_roots base_coefficients tolerance p t_1 t_2 d rs = Inr (Some r)
       \<and> min_val r = Min (set (map (derivative_value (m_coefficients p) (nat d))
                                 (candidates tolerance t_1 t_2 rs)))
       \<and> max_val r = Max (set (map (derivative_value (m_coefficients p) (nat d))
                                 (candidates tolerance t_1 t_2 rs)))
       \<and> first_at (map (derivative_value (m_coefficients p) (nat d))
                     (candidates tolerance t_1 t_2 rs)) (min_val r) i
       \<and> t_min r = candidates tolerance t_1 t_2 rs ! i
       \<and> first_at (map (derivative_value (m_coefficients p) (nat d))
                     (candidates tolerance t_1 t_2 rs)) (max_val r) j
       \<and> t_max r = candidates tolerance t_1 t_2 rs ! j"
    using findMinMax_roots_supported[OF assms] by blast
  have ev: "\<forall>t. evaluate base_coefficients p t d
      = Inr (derivative_value (m_coefficients p) (nat d) t)"
    using evaluate_value[OF assms(1,2,4,5)] by simp
  have cs: "\<forall>rs. set (candidates tolerance t_1 t_2 rs)
              = {t_1, t_2} \<union> Re ` {z \<in> set rs. admissible tolerance t_1 t_2 z}"
    using candidates_set by blast
  have via: "d + 1 < kMaxN \<longrightarrow>
          (\<exists>cs r. getCoefficients base_coefficients p (d + 1) = Inr cs
             \<and> findMinMax base_coefficients solver tolerance p t_1 t_2 d = Inr (Some r)
             \<and> findMinMax_roots base_coefficients tolerance p t_1 t_2 d (solver cs)
                 = Inr (Some r))"
  proof
    assume k: "d + 1 < kMaxN"
    from findMinMax_computes_roots[OF assms k, of solver tolerance]
    obtain cs where c: "getCoefficients base_coefficients p (d + 1) = Inr cs"
      "findMinMax base_coefficients solver tolerance p t_1 t_2 d
         = findMinMax_roots base_coefficients tolerance p t_1 t_2 d (solver cs)" by blast
    from findMinMax_roots_returns[OF assms(1-4), of tolerance "solver cs"]
    obtain r where "findMinMax_roots base_coefficients tolerance p t_1 t_2 d (solver cs)
        = Inr (Some r)" by blast
    with c show "\<exists>cs r. getCoefficients base_coefficients p (d + 1) = Inr cs
             \<and> findMinMax base_coefficients solver tolerance p t_1 t_2 d = Inr (Some r)
             \<and> findMinMax_roots base_coefficients tolerance p t_1 t_2 d (solver cs)
                 = Inr (Some r)" by auto
  qed
  have cr: "\<forall>rs. findMinMax_roots base_coefficients tolerance
                \<lparr>m_N = 4, m_coefficients = [0, 0, 0, 1]\<rparr> (- 1) 1 0 rs
              = Inr (Some \<lparr>t_min = - 1, t_max = 1, min_val = - 1, max_val = 1\<rparr>)"
    using findMinMax_roots_cubic by blast
  have w: "wf_Polynomial \<lparr>m_N = 4, m_coefficients = [0, 0, 0, 1]\<rparr>"
    "m_N \<lparr>m_N = 4, m_coefficients = [0, 0, 0, 1]\<rparr> \<le> kMaxN"
    "(- 1 :: real) \<le> 1" "(0 :: int) \<le> 0" "0 < m_N \<lparr>m_N = 4, m_coefficients = [0, 0, 0, 1]\<rparr>"
    "(0 :: int) + 1 < kMaxN"
    by (simp_all add: wf_Polynomial_def kMaxN_def)
  from findMinMax_computes_roots[OF w, of solver tolerance]
  have cub: "findMinMax base_coefficients solver tolerance
           \<lparr>m_N = 4, m_coefficients = [0, 0, 0, 1]\<rparr> (- 1) 1 0
         = Inr (Some \<lparr>t_min = - 1, t_max = 1, min_val = - 1, max_val = 1\<rparr>)"
    using findMinMax_roots_cubic by auto
  from a ev cs via cr cub show ?thesis by (intro conjI)
qed

theorem findMinMax_extrema_witness:
  "wf_Polynomial \<lparr>m_N = 4, m_coefficients = [0, 0, 0, 1]\<rparr>
   \<and> m_N \<lparr>m_N = 4, m_coefficients = [0, 0, 0, 1]\<rparr> \<le> kMaxN
   \<and> (- 1 :: real) \<le> 1 \<and> (0::int) \<le> 0
   \<and> 0 < m_N \<lparr>m_N = 4, m_coefficients = [0, 0, 0, 1]\<rparr>
   \<and> (0 :: int) + 1 < kMaxN
   \<and> candidates (1 / 1000) (- 1) 1 [0, 0, Complex 3 0, Complex 0 1] = [- 1, 1, 0, 0]
   \<and> evaluate base_coefficients \<lparr>m_N = 4, m_coefficients = [0, 0, 0, 1]\<rparr> (- 1) 0 = Inr (- 1)
   \<and> evaluate base_coefficients \<lparr>m_N = 4, m_coefficients = [0, 0, 0, 1]\<rparr> 1 0 = Inr 1
   \<and> evaluate base_coefficients \<lparr>m_N = 4, m_coefficients = [0, 0, 0, 1]\<rparr> 0 0 = Inr 0
   \<and> findMinMax_roots base_coefficients (1 / 1000) \<lparr>m_N = 4, m_coefficients = [0, 0, 0, 1]\<rparr>
         (- 1) 1 0 [0, 0, Complex 3 0, Complex 0 1]
       = Inr (Some \<lparr>t_min = - 1, t_max = 1, min_val = - 1, max_val = 1\<rparr>)
   \<and> getCoefficients base_coefficients \<lparr>m_N = 4, m_coefficients = [0, 0, 0, 1]\<rparr> 1
       = Inr [0, 0, 3, 0]
   \<and> findMinMax base_coefficients (\<lambda>cs. [0, 0]) (1 / 1000)
         \<lparr>m_N = 4, m_coefficients = [0, 0, 0, 1]\<rparr> (- 1) 1 0
       = Inr (Some \<lparr>t_min = - 1, t_max = 1, min_val = - 1, max_val = 1\<rparr>)"
proof -
  define P where "P = \<lparr>m_N = 4, m_coefficients = [0, 0, 0, 1]\<rparr>"
  have h: "wf_Polynomial P" "m_N P \<le> kMaxN" "(- 1 :: real) \<le> 1" "(0::int) \<le> 0" "0 < m_N P"
    by (simp_all add: P_def wf_Polynomial_def kMaxN_def)
  have k: "(0 :: int) + 1 < kMaxN" by (simp add: kMaxN_def)
  note t = findMinMax_extrema[OF h, of "1 / 1000" "\<lambda>cs. [0, 0]"]
  have c: "candidates (1 / 1000) (- 1) 1 [0, 0, Complex 3 0, Complex 0 1] = [- 1, 1, 0, 0]"
    by (simp add: candidates_def admissible_def)
  from t have e: "evaluate base_coefficients P t 0 = Inr (t ^ 3)" for t
    by (simp add: P_def cubic_value)
  from t have f: "findMinMax_roots base_coefficients (1 / 1000)
         \<lparr>m_N = 4, m_coefficients = [0, 0, 0, 1]\<rparr> (- 1) 1 0 [0, 0, Complex 3 0, Complex 0 1]
       = Inr (Some \<lparr>t_min = - 1, t_max = 1, min_val = - 1, max_val = 1\<rparr>)"
    by blast
  from t have g: "findMinMax base_coefficients (\<lambda>cs. [0, 0]) (1 / 1000)
         \<lparr>m_N = 4, m_coefficients = [0, 0, 0, 1]\<rparr> (- 1) 1 0
       = Inr (Some \<lparr>t_min = - 1, t_max = 1, min_val = - 1, max_val = 1\<rparr>)"
    by blast
  have gc: "getCoefficients base_coefficients P 1 = Inr [0, 0, 3, 0]"
    using getCoefficients_derivative[OF h(1,2), of 1]
    by (simp add: P_def kMaxN_def base_entry_def upt_rec)
  show ?thesis
    using h k c e[of "- 1"] e[of 1] e[of 0] f g gc unfolding P_def by simp
qed

text \<open>
  Without the bound on the order the property fails: the search evaluates the polynomial
  at \<open>t1\<close> first, and for order 13 that evaluation leaves the table.
\<close>

theorem findMinMax_order_13_counterexample:
  "wf_Polynomial \<lparr>m_N = 13, m_coefficients = [1, 0, 0, 0, 0, 0, 0, 0, 0, 0, 0, 0, 0]\<rparr>
   \<and> (0 :: real) \<le> 1 \<and> (0 :: int) \<le> 0
   \<and> 0 < m_N \<lparr>m_N = 13, m_coefficients = [1, 0, 0, 0, 0, 0, 0, 0, 0, 0, 0, 0, 0]\<rparr>
   \<and> evaluate base_coefficients
        \<lparr>m_N = 13, m_coefficients = [1, 0, 0, 0, 0, 0, 0, 0, 0, 0, 0, 0, 0]\<rparr> 0 0
       = Inl EigenAssert
   \<and> findMinMax_roots base_coefficients 0
        \<lparr>m_N = 13, m_coefficients = [1, 0, 0, 0, 0, 0, 0, 0, 0, 0, 0, 0, 0]\<rparr> 0 1 0 []
       = Inl EigenAssert"
  by (simp add: wf_Polynomial_def findMinMax_roots_def candidates_def evaluate_def block_1_def
      rows_base cols_base kMaxN_def bind_e_def)

section \<open>The table, the invariant and the frame over the lifetime\<close>

lemma equals_same_size:
  "length (m_coefficients p) = length (m_coefficients rhs) \<Longrightarrow>
   equals p rhs = Inr (m_coefficients p = m_coefficients rhs)"
proof -
  have "list_all (\<lambda>(x, y). x = y) (zip a b) \<longleftrightarrow> a = b" if "length a = length b"
    for a b :: "real list"
    using that by (induction a b rule: list_induct2) auto
  then show "length (m_coefficients p) = length (m_coefficients rhs) \<Longrightarrow>
      equals p rhs = Inr (m_coefficients p = m_coefficients rhs)"
    by (simp add: equals_def cwiseEqual_all_def)
qed

lemma equals_size_mismatch:
  "length (m_coefficients p) \<noteq> length (m_coefficients rhs) \<Longrightarrow>
   equals p rhs = Inl EigenAssert \<and> not_equals p rhs = Inl EigenAssert"
  by (simp add: equals_def not_equals_def cwiseEqual_all_def bind_e_def)

lemma exec_query_frame:
  "is_query c \<Longrightarrow> exec solver tol s c = Inr (s', r) \<Longrightarrow> s' = s"
  by (cases c) (auto simp add: is_query_def split: sum.splits)

lemma exec_table:
  "exec solver tol s c = Inr (s', r) \<Longrightarrow> table s' = table s"
  by (cases c) (auto split: sum.splits)

lemma run_table:
  "run solver tol s calls = Inr s' \<Longrightarrow> table s' = table s"
proof (induction calls arbitrary: s)
  case Nil
  then show ?case by simp
next
  case (Cons c calls)
  then obtain q r where e: "exec solver tol s c = Inr (q, r)" and
    rest: "run solver tol q calls = Inr s'"
    by (auto split: sum.splits)
  from exec_table[OF e] Cons.IH[OF rest] show ?case by simp
qed

lemma setCoefficients_wf:
  "setCoefficients p coeffs = Inr p' \<Longrightarrow> wf_Polynomial p' \<and> m_N p' = m_N p"
  by (auto simp add: setCoefficients_def wf_Polynomial_def split: if_splits)

lemma exec_preserves:
  assumes "exec solver tol s c = Inr (s', r)"
  shows "m_N (poly s') = m_N (poly s)
     \<and> (wf_Polynomial (poly s) \<longrightarrow> wf_Polynomial (poly s'))"
proof (cases "is_query c")
  case True
  then show ?thesis using assms exec_query_frame by blast
next
  case False
  then obtain coeffs where "c = SetCoefficients coeffs"
    by (cases c) (simp_all add: is_query_def)
  then show ?thesis
    using assms setCoefficients_wf by (auto split: sum.splits)
qed

lemma run_preserves:
  "run solver tol s calls = Inr s' \<Longrightarrow>
   m_N (poly s') = m_N (poly s) \<and> (wf_Polynomial (poly s) \<longrightarrow> wf_Polynomial (poly s'))"
proof (induction calls arbitrary: s)
  case Nil
  then show ?case by simp
next
  case (Cons c calls)
  then obtain q r where e: "exec solver tol s c = Inr (q, r)" and
    rest: "run solver tol q calls = Inr s'"
    by (auto split: sum.splits)
  from exec_preserves[OF e] Cons.IH[OF rest] show ?case by simp
qed

lemma run_queries_frame:
  "list_all is_query calls \<Longrightarrow> run solver tol s calls = Inr s' \<Longrightarrow> s' = s"
proof (induction calls arbitrary: s)
  case Nil
  then show ?case by simp
next
  case (Cons c calls)
  then obtain q r where e: "exec solver tol s c = Inr (q, r)" and
    rest: "run solver tol q calls = Inr s'"
    by (auto split: sum.splits)
  have "q = s" using exec_query_frame[OF _ e] Cons.prems by simp
  then show ?case using Cons.IH[of q] Cons.prems rest by simp
qed

lemma Polynomial_zero_result:
  "Polynomial_zero n = Inr p \<Longrightarrow>
   wf_Polynomial p \<and> m_N p = n \<and> m_coefficients p = replicate (nat n) 0"
  by (auto simp add: Polynomial_zero_def zero_vector_def bind_e_def wf_Polynomial_def
      split: if_splits)

lemma Polynomial_zero_total: "0 \<le> n \<Longrightarrow> \<exists>p. Polynomial_zero n = Inr p"
  by (simp add: Polynomial_zero_def zero_vector_def bind_e_def)

lemma base_entries:
  "\<forall>d j. 0 \<le> d \<and> d < kMaxN \<and> 0 \<le> j \<and> j < kMaxN \<longrightarrow>
      coeff2 base_coefficients d j =
        Inr (if j \<ge> d then fact (nat j) / fact (nat (j - d)) else 0)
      \<and> (j \<ge> d \<longrightarrow> fact (nat j) / fact (nat (j - d))
            = (\<Prod>k = 0..<nat d. real_of_int j - real k))"
proof -
  have "fact (nat j) / fact (nat (j - d)) = (\<Prod>k = 0..<nat d. real_of_int j - real k)"
    if "0 \<le> d" "d \<le> j" for d j :: int
  proof -
    have "fact (nat j) / fact (nat j - nat d) = (\<Prod>k = 0..<nat d. real (nat j) - real k)"
      using that falling_factorial_fact[of "nat d" "nat j"]
      by (simp add: falling_factorial_prod)
    then show ?thesis using that by (simp add: nat_diff_distrib)
  qed
  then show ?thesis
    by (auto simp add: coeff2_base base_entry_def falling_factorial_fact nat_diff_distrib)
qed

text \<open>
  C4. The basis table is square of side \<open>kMaxN\<close>, and for every row \<open>d\<close> and column \<open>j\<close>
  with \<open>0 \<le> d, j < kMaxN\<close> its entry is the falling factorial \<open>j!/(j-d)!\<close>, that is
  \<open>j\<cdot>(j-1)\<cdot>\<dots>\<cdot>(j-d+1)\<close>, when \<open>j \<ge> d\<close>, and \<open>0\<close> when \<open>j < d\<close>. It is built once, as the
  table of the initial state of the process, and never mutated afterward: every call of
  a member leaves the table of the state as it was, and after any sequence of calls from
  the initial state the table is still the one that was built.
\<close>

theorem base_coefficients_table:
  "rows base_coefficients = kMaxN \<and> cols base_coefficients = kMaxN \<and>
   (\<forall>d j. 0 \<le> d \<and> d < kMaxN \<and> 0 \<le> j \<and> j < kMaxN \<longrightarrow>
      coeff2 base_coefficients d j =
        Inr (if j \<ge> d then fact (nat j) / fact (nat (j - d)) else 0)
      \<and> (j \<ge> d \<longrightarrow> fact (nat j) / fact (nat (j - d))
            = (\<Prod>k = 0..<nat d. real_of_int j - real k)))
   \<and> table (initial p) = base_coefficients
   \<and> (\<forall>s' r. exec solver tol s c = Inr (s', r) \<longrightarrow> table s' = table s)
   \<and> (\<forall>s'. run solver tol s calls = Inr s' \<longrightarrow> table s' = table s)
   \<and> (\<forall>s'. run solver tol (initial p) calls = Inr s' \<longrightarrow> table s' = base_coefficients)"
proof -
  have i: "table (initial p) = base_coefficients"
    by (simp add: initial_def base_coefficients_def)
  have e: "\<forall>s' r. exec solver tol s c = Inr (s', r) \<longrightarrow> table s' = table s"
    using exec_table by blast
  have r: "\<forall>s'. run solver tol s calls = Inr s' \<longrightarrow> table s' = table s"
    using run_table by blast
  have ri: "\<forall>s'. run solver tol (initial p) calls = Inr s' \<longrightarrow> table s' = base_coefficients"
    using run_table[of solver tol "initial p" calls] i by simp
  from rows_base cols_base base_entries i e r ri show ?thesis by (intro conjI)
qed

theorem base_coefficients_table_witness:
  "(0::int) \<le> 2 \<and> (2::int) < kMaxN \<and> (0::int) \<le> 5 \<and> (5::int) < kMaxN
   \<and> coeff2 base_coefficients 2 5 = Inr 20
   \<and> run (\<lambda>cs. []) 0 (initial \<lparr>m_N = 3, m_coefficients = [1, 2, 3]\<rparr>)
        [Evaluate 2 1, SetCoefficients [4, 5, 6], BaseCoeffsWithTime 3 1 2, GetCoefficients 2]
      = Inr \<lparr>table = base_coefficients, poly = \<lparr>m_N = 3, m_coefficients = [4, 5, 6]\<rparr>\<rparr>"
proof -
  define P where "P = \<lparr>m_N = 3, m_coefficients = [1, 2, 3]\<rparr>"
  define P1 where "P1 = \<lparr>m_N = 3, m_coefficients = [4, 5, 6]\<rparr>"
  define calls where "calls =
    [Evaluate 2 1, SetCoefficients [4, 5, 6], BaseCoeffsWithTime 3 1 2, GetCoefficients 2]"
  note t = base_coefficients_table[of P "\<lambda>cs. []" 0 "initial P" "Evaluate 2 1" calls]
  have f: "fact (5::nat) / fact (3::nat) = (20::real)"
    by (simp add: fact_numeral)
  from t f have v: "coeff2 base_coefficients 2 5 = Inr 20" by (simp add: kMaxN_def)
  have w: "wf_Polynomial P" "m_N P \<le> kMaxN" "wf_Polynomial P1" "m_N P1 \<le> kMaxN"
    by (simp_all add: P_def P1_def wf_Polynomial_def kMaxN_def)
  have i: "initial P = \<lparr>table = base_coefficients, poly = P\<rparr>"
    by (simp add: initial_def base_coefficients_def)
  obtain x where e: "evaluate base_coefficients P 2 1 = Inr x"
    using evaluate_value[OF w(1,2), of 1 2] by (simp add: P_def)
  have sc: "setCoefficients P [4, 5, 6] = Inr P1"
    by (simp add: setCoefficients_def P_def P1_def)
  obtain y where b: "baseCoeffsWithTime base_coefficients 3 1 2 = Inr y"
    using baseCoeffsWithTime_supported[of 1 3 2] by (simp add: kMaxN_def)
  obtain z where g: "getCoefficients base_coefficients P1 2 = Inr z"
    using getCoefficients_derivative[OF w(3,4), of 2] by (simp add: P1_def kMaxN_def)
  have r: "run (\<lambda>cs. []) 0 (initial P) calls = Inr \<lparr>table = base_coefficients, poly = P1\<rparr>"
    by (simp add: calls_def i e sc b g)
  from t r have "table \<lparr>table = base_coefficients, poly = P1\<rparr> = base_coefficients" by blast
  then show ?thesis
    using v r unfolding P_def P1_def calls_def by (simp add: kMaxN_def)
qed

text \<open>
  C9. Every instance keeps as many coefficients as its order \<open>N\<close>, from construction
  through every operation: \<open>Polynomial(N)\<close> creates \<open>N\<close> zero coefficients,
  \<open>Polynomial(N, coeffs)\<close> and \<open>setCoefficients(coeffs)\<close> fail when the length of \<open>coeffs\<close>
  differs from \<open>N\<close> and keep the invariant when it does not, and over any sequence of
  calls that runs to its end the invariant holds and \<open>N\<close> is what it was.
\<close>

theorem Polynomial_invariant:
  "(\<forall>p. Polynomial_zero n = Inr p \<longrightarrow>
        wf_Polynomial p \<and> m_N p = n \<and> m_coefficients p = replicate (nat n) 0)
   \<and> (0 \<le> n \<longrightarrow> (\<exists>p. Polynomial_zero n = Inr p))
   \<and> (int (length coeffs) = n \<longrightarrow>
        Polynomial_coeffs n coeffs = Inr \<lparr>m_N = n, m_coefficients = coeffs\<rparr>
        \<and> wf_Polynomial \<lparr>m_N = n, m_coefficients = coeffs\<rparr>)
   \<and> (int (length coeffs) \<noteq> n \<longrightarrow> Polynomial_coeffs n coeffs = Inl CheckFailed)
   \<and> (int (length coeffs) = m_N p \<longrightarrow>
        setCoefficients p coeffs = Inr (p\<lparr>m_coefficients := coeffs\<rparr>)
        \<and> wf_Polynomial (p\<lparr>m_coefficients := coeffs\<rparr>))
   \<and> (int (length coeffs) \<noteq> m_N p \<longrightarrow> setCoefficients p coeffs = Inl CheckFailed)
   \<and> (\<forall>s'. wf_Polynomial (poly s) \<and> run solver tol s calls = Inr s' \<longrightarrow>
        wf_Polynomial (poly s') \<and> m_N (poly s') = m_N (poly s))"
proof -
  have c1: "\<forall>p. Polynomial_zero n = Inr p \<longrightarrow>
        wf_Polynomial p \<and> m_N p = n \<and> m_coefficients p = replicate (nat n) 0"
    using Polynomial_zero_result by blast
  have c2: "0 \<le> n \<longrightarrow> (\<exists>p. Polynomial_zero n = Inr p)"
    using Polynomial_zero_total by blast
  have c3: "int (length coeffs) = n \<longrightarrow>
        Polynomial_coeffs n coeffs = Inr \<lparr>m_N = n, m_coefficients = coeffs\<rparr>
        \<and> wf_Polynomial \<lparr>m_N = n, m_coefficients = coeffs\<rparr>"
    by (auto simp add: Polynomial_coeffs_def wf_Polynomial_def)
  have c4: "int (length coeffs) \<noteq> n \<longrightarrow> Polynomial_coeffs n coeffs = Inl CheckFailed"
    by (auto simp add: Polynomial_coeffs_def)
  have c5: "int (length coeffs) = m_N p \<longrightarrow>
        setCoefficients p coeffs = Inr (p\<lparr>m_coefficients := coeffs\<rparr>)
        \<and> wf_Polynomial (p\<lparr>m_coefficients := coeffs\<rparr>)"
    by (auto simp add: setCoefficients_def wf_Polynomial_def)
  have c6: "int (length coeffs) \<noteq> m_N p \<longrightarrow> setCoefficients p coeffs = Inl CheckFailed"
    by (auto simp add: setCoefficients_def)
  have c7: "\<forall>s'. wf_Polynomial (poly s) \<and> run solver tol s calls = Inr s' \<longrightarrow>
        wf_Polynomial (poly s') \<and> m_N (poly s') = m_N (poly s)"
    using run_preserves by blast
  from c1 c2 c3 c4 c5 c6 c7 show ?thesis by (intro conjI)
qed

theorem Polynomial_invariant_witness:
  "(0::int) \<le> 3
   \<and> Polynomial_zero 3 = Inr \<lparr>m_N = 3, m_coefficients = [0, 0, 0]\<rparr>
   \<and> wf_Polynomial \<lparr>m_N = 3, m_coefficients = [0, 0, 0]\<rparr>
   \<and> Polynomial_coeffs 3 [4, 5, 6] = Inr \<lparr>m_N = 3, m_coefficients = [4, 5, 6]\<rparr>
   \<and> Polynomial_coeffs 3 [4, 5] = Inl CheckFailed
   \<and> setCoefficients \<lparr>m_N = 3, m_coefficients = [0, 0, 0]\<rparr> [4, 5, 6]
       = Inr \<lparr>m_N = 3, m_coefficients = [4, 5, 6]\<rparr>
   \<and> setCoefficients \<lparr>m_N = 3, m_coefficients = [0, 0, 0]\<rparr> [4, 5] = Inl CheckFailed
   \<and> run (\<lambda>cs. []) 0 (initial \<lparr>m_N = 3, m_coefficients = [0, 0, 0]\<rparr>)
         [GetN, SetCoefficients [4, 5, 6], GetCoefficients 0]
       = Inr (initial \<lparr>m_N = 3, m_coefficients = [4, 5, 6]\<rparr>)
   \<and> wf_Polynomial \<lparr>m_N = 3, m_coefficients = [4, 5, 6]\<rparr>"
proof -
  define P0 where "P0 = \<lparr>m_N = 3, m_coefficients = [0, 0, 0]\<rparr>"
  define P1 where "P1 = \<lparr>m_N = 3, m_coefficients = [4, 5, 6]\<rparr>"
  define calls where "calls = [GetN, SetCoefficients [4, 5, 6], GetCoefficients 0]"
  note t = Polynomial_invariant[of 3 "[4, 5, 6]" P0 "initial P0" "\<lambda>cs. []" 0 calls]
  note u = Polynomial_invariant[of 3 "[4, 5]" P0 "initial P0" "\<lambda>cs. []" 0 calls]
  have s: "setCoefficients P0 [4, 5, 6] = Inr P1"
    by (simp add: setCoefficients_def P0_def P1_def)
  have g: "getCoefficients tbl P1 0 = Inr [4, 5, 6]" for tbl
    by (simp add: getCoefficients_def P1_def)
  have r: "run (\<lambda>cs. []) 0 (initial P0) calls = Inr (initial P1)"
    by (simp add: calls_def s g initial_def)
  have z: "Polynomial_zero 3 = Inr P0"
    by (simp add: Polynomial_zero_def zero_vector_def bind_e_def eval_nat_numeral P0_def)
  have l: "int (length [4, 5, 6 :: real]) = 3" "int (length [4, 5 :: real]) \<noteq> 3" "m_N P0 = 3"
    by (simp_all add: P0_def)
  have p: "poly (initial P0) = P0" "poly (initial P1) = P1" by (simp_all add: initial_def)
  from t z have w0: "wf_Polynomial P0" by blast
  from t l have c: "Polynomial_coeffs 3 [4, 5, 6] = Inr \<lparr>m_N = 3, m_coefficients = [4, 5, 6]\<rparr>"
    by blast
  from u l have cf: "Polynomial_coeffs 3 [4, 5] = Inl CheckFailed" by blast
  from u l have sf: "setCoefficients P0 [4, 5] = Inl CheckFailed" by metis
  from t w0 r p have w1: "wf_Polynomial P1" by metis
  show ?thesis
    using z w0 c cf s sf r w1 unfolding P0_def P1_def calls_def by simp
qed

text \<open>
  C10. Every query (\<open>getCoefficients\<close>, both forms of \<open>evaluate\<close>, \<open>computeRoots\<close>, both
  forms of \<open>findMinMax\<close>, \<open>N()\<close> and the two equality operators) leaves the order and the
  stored coefficients of the polynomial as they were, one call or many; a call after
  which the coefficients differ is a \<open>setCoefficients\<close>, and no call changes the order.
\<close>

theorem queries_leave_polynomial_unchanged:
  "(is_query c \<and> exec solver tol s c = Inr (s', r) \<longrightarrow>
      m_N (poly s') = m_N (poly s) \<and> m_coefficients (poly s') = m_coefficients (poly s))
   \<and> (list_all is_query calls \<and> run solver tol s calls = Inr s'' \<longrightarrow>
      m_N (poly s'') = m_N (poly s) \<and> m_coefficients (poly s'') = m_coefficients (poly s))
   \<and> (exec solver tol s c = Inr (s', r)
        \<and> m_coefficients (poly s') \<noteq> m_coefficients (poly s) \<longrightarrow>
      (\<exists>coeffs. c = SetCoefficients coeffs))
   \<and> (exec solver tol s c = Inr (s', r) \<longrightarrow> m_N (poly s') = m_N (poly s))"
proof -
  have c1: "is_query c \<and> exec solver tol s c = Inr (s', r) \<longrightarrow>
      m_N (poly s') = m_N (poly s) \<and> m_coefficients (poly s') = m_coefficients (poly s)"
    using exec_query_frame by blast
  have c2: "list_all is_query calls \<and> run solver tol s calls = Inr s'' \<longrightarrow>
      m_N (poly s'') = m_N (poly s) \<and> m_coefficients (poly s'') = m_coefficients (poly s)"
    using run_queries_frame by blast
  have c3: "exec solver tol s c = Inr (s', r)
        \<and> m_coefficients (poly s') \<noteq> m_coefficients (poly s) \<longrightarrow>
      (\<exists>coeffs. c = SetCoefficients coeffs)"
  proof
    assume a: "exec solver tol s c = Inr (s', r)
        \<and> m_coefficients (poly s') \<noteq> m_coefficients (poly s)"
    then have "\<not> is_query c" using exec_query_frame by blast
    then show "\<exists>coeffs. c = SetCoefficients coeffs"
      by (cases c) (simp_all add: is_query_def)
  qed
  have c4: "exec solver tol s c = Inr (s', r) \<longrightarrow> m_N (poly s') = m_N (poly s)"
    using exec_preserves by blast
  from c1 c2 c3 c4 show ?thesis by (intro conjI)
qed

theorem queries_leave_polynomial_unchanged_witness:
  "is_query (GetCoefficients 0)
   \<and> exec (\<lambda>cs. []) 0 (initial \<lparr>m_N = 3, m_coefficients = [1, 2, 3]\<rparr>) (GetCoefficients 0)
       = Inr (initial \<lparr>m_N = 3, m_coefficients = [1, 2, 3]\<rparr>, RVector [1, 2, 3])
   \<and> list_all is_query
        [GetN, Evaluate 2 5, ComputeRoots, Equals \<lparr>m_N = 3, m_coefficients = [1, 2, 3]\<rparr>,
         NotEquals \<lparr>m_N = 3, m_coefficients = [7, 8, 9]\<rparr>]
   \<and> run (\<lambda>cs. []) 0 (initial \<lparr>m_N = 3, m_coefficients = [1, 2, 3]\<rparr>)
        [GetN, Evaluate 2 5, ComputeRoots, Equals \<lparr>m_N = 3, m_coefficients = [1, 2, 3]\<rparr>,
         NotEquals \<lparr>m_N = 3, m_coefficients = [7, 8, 9]\<rparr>]
       = Inr (initial \<lparr>m_N = 3, m_coefficients = [1, 2, 3]\<rparr>)
   \<and> exec (\<lambda>cs. []) 0 (initial \<lparr>m_N = 3, m_coefficients = [1, 2, 3]\<rparr>)
        (Equals \<lparr>m_N = 3, m_coefficients = [1, 2, 3]\<rparr>)
       = Inr (initial \<lparr>m_N = 3, m_coefficients = [1, 2, 3]\<rparr>, RBool True)
   \<and> exec (\<lambda>cs. []) 0 (initial \<lparr>m_N = 3, m_coefficients = [1, 2, 3]\<rparr>)
        (SetCoefficients [4, 5, 6])
       = Inr (initial \<lparr>m_N = 3, m_coefficients = [4, 5, 6]\<rparr>, RVoid)
   \<and> m_coefficients \<lparr>m_N = 3, m_coefficients = [4, 5, 6]\<rparr>
       \<noteq> m_coefficients \<lparr>m_N = 3, m_coefficients = [1, 2, 3]\<rparr>
   \<and> \<not> is_query (SetCoefficients [4, 5, 6])"
proof -
  define P where "P = \<lparr>m_N = 3, m_coefficients = [1, 2, 3]\<rparr>"
  define P1 where "P1 = \<lparr>m_N = 3, m_coefficients = [4, 5, 6]\<rparr>"
  define Q where "Q = \<lparr>m_N = 3, m_coefficients = [7, 8, 9]\<rparr>"
  define calls where "calls = [GetN, Evaluate 2 5, ComputeRoots, Equals P, NotEquals Q]"
  have q: "is_query (GetCoefficients 0)" "list_all is_query calls"
    by (simp_all add: is_query_def calls_def)
  have g: "getCoefficients tbl P 0 = Inr [1, 2, 3]" for tbl
    by (simp add: getCoefficients_def P_def)
  have e: "exec (\<lambda>cs. []) 0 (initial P) (GetCoefficients 0) = Inr (initial P, RVector [1, 2, 3])"
    by (simp add: g initial_def)
  have v: "evaluate tbl P 2 5 = Inr 0" for tbl
    by (simp add: evaluate_def P_def)
  have eq: "equals P P = Inr True" "not_equals P Q = Inr True"
    by (simp_all add: equals_def not_equals_def cwiseEqual_all_def bind_e_def P_def Q_def)
  have ee: "exec (\<lambda>cs. []) 0 (initial P) (Equals P) = Inr (initial P, RBool True)"
    by (simp add: eq initial_def)
  have r: "run (\<lambda>cs. []) 0 (initial P) calls = Inr (initial P)"
    by (simp add: calls_def v eq initial_def)
  have sc: "setCoefficients P [4, 5, 6] = Inr P1"
    by (simp add: setCoefficients_def P_def P1_def)
  have s: "exec (\<lambda>cs. []) 0 (initial P) (SetCoefficients [4, 5, 6]) = Inr (initial P1, RVoid)"
    by (simp add: sc initial_def)
  have d: "m_coefficients (poly (initial P1)) \<noteq> m_coefficients (poly (initial P))"
    by (simp add: P_def P1_def initial_def)
  note t = queries_leave_polynomial_unchanged[of "SetCoefficients [4, 5, 6]" "\<lambda>cs. []" 0
      "initial P" "initial P1" RVoid calls "initial P"]
  from t s d obtain coeffs where "SetCoefficients [4, 5, 6] = SetCoefficients coeffs" by blast
  then have nq: "\<not> is_query (SetCoefficients [4, 5, 6])" by (simp add: is_query_def)
  from t q r have "m_N (poly (initial P)) = m_N (poly (initial P))
      \<and> m_coefficients (poly (initial P)) = m_coefficients (poly (initial P))" by blast
  then show ?thesis
    using q e r ee s d nq unfolding P_def P1_def Q_def calls_def by (simp add: initial_def)
qed

end
